theory Spec2Isabelle
  imports Complex_Main
begin

section \<open>Number model\<close>

text \<open>
  The camera of OpenImageDebugger (\<^verbatim>\<open>src/visualization/components/camera.cpp\<close>) computes
  with C++ \<^verbatim>\<open>float\<close>. Unless said otherwise a \<^verbatim>\<open>float\<close> is modelled by a \<^typ>\<open>real\<close>:
  the arithmetic is exact, and rounding, infinities and NaN are outside the model. Two
  consequences are kept in view throughout:
  \<^item> a division by zero yields \<open>0\<close> in HOL where the program yields an infinity or a NaN, so
    every theorem that depends on a quotient or on a matrix inverse names the divisor it
    needs to be non-zero;
  \<^item> \<^verbatim>\<open>std::pow(zoom_factor, p)\<close> is \<^term>\<open>zf powr p\<close>; the constant \<^verbatim>\<open>zoom_factor\<close> is
    declared in \<^verbatim>\<open>camera.h\<close>, and is the parameter \<open>zf\<close> of every function that reads it.
  A conversion of an \<^verbatim>\<open>int\<close> to \<^verbatim>\<open>float\<close> is exact in this model. The two properties that
  are about rounding itself (dragging forth and back, and the diagonal of \<^verbatim>\<open>scale_\<close> being the
  exact inverse of the zoom) are examined in a model of binary32 arithmetic, which has
  sections of its own.
\<close>

section \<open>Linear algebra primitives\<close>

text \<open>
  \<^verbatim>\<open>vec4\<close> and \<^verbatim>\<open>mat4\<close> belong to \<^verbatim>\<open>math/linear_algebra\<close>, which the camera includes and
  whose text is not part of the sources at hand. A matrix is kept as its four rows, and
  \<^verbatim>\<open>m(i, j)\<close> reads row \<open>i\<close>, column \<open>j\<close>.
\<close>

datatype vec4 = Vec4 (vx: real) (vy: real) (vz: real) (vw: real)

datatype mat4 = Mat4 (row0: vec4) (row1: vec4) (row2: vec4) (row3: vec4)

text \<open>
  Modelled from the spec: the arithmetic of \<^verbatim>\<open>vec4\<close> (unary minus, difference, product with
  a scalar) works per component, on all four components.
\<close>

definition vec_neg :: "vec4 \<Rightarrow> vec4" where
  "vec_neg v = Vec4 (- vx v) (- vy v) (- vz v) (- vw v)"

definition vec_sub :: "vec4 \<Rightarrow> vec4 \<Rightarrow> vec4" where
  "vec_sub u v = Vec4 (vx u - vx v) (vy u - vy v) (vz u - vz v) (vw u - vw v)"

definition vec_scalar :: "vec4 \<Rightarrow> real \<Rightarrow> vec4" where
  "vec_scalar v f = Vec4 (vx v * f) (vy v * f) (vz v * f) (vw v * f)"

definition dot :: "vec4 \<Rightarrow> vec4 \<Rightarrow> real" where
  "dot u v = vx u * vx v + vy u * vy v + vz u * vz v + vw u * vw v"

definition col0 :: "mat4 \<Rightarrow> vec4" where
  "col0 m = Vec4 (vx (row0 m)) (vx (row1 m)) (vx (row2 m)) (vx (row3 m))"

definition col1 :: "mat4 \<Rightarrow> vec4" where
  "col1 m = Vec4 (vy (row0 m)) (vy (row1 m)) (vy (row2 m)) (vy (row3 m))"

definition col2 :: "mat4 \<Rightarrow> vec4" where
  "col2 m = Vec4 (vz (row0 m)) (vz (row1 m)) (vz (row2 m)) (vz (row3 m))"

definition col3 :: "mat4 \<Rightarrow> vec4" where
  "col3 m = Vec4 (vw (row0 m)) (vw (row1 m)) (vw (row2 m)) (vw (row3 m))"

text \<open>
  Modelled from the spec: \<^verbatim>\<open>mat4 * vec4\<close> applies the matrix to a column of homogeneous
  coordinates.
\<close>

definition mat_vec :: "mat4 \<Rightarrow> vec4 \<Rightarrow> vec4" where
  "mat_vec m v = Vec4 (dot (row0 m) v) (dot (row1 m) v) (dot (row2 m) v) (dot (row3 m) v)"

definition row_mat :: "vec4 \<Rightarrow> mat4 \<Rightarrow> vec4" where
  "row_mat r m = Vec4 (dot r (col0 m)) (dot r (col1 m)) (dot r (col2 m)) (dot r (col3 m))"

text \<open>
  Modelled from the spec: \<^verbatim>\<open>mat4 * mat4\<close> is the matrix product; in \<open>a * b\<close> the right
  factor \<open>b\<close> acts on a coordinate first.
\<close>

definition mat_mul :: "mat4 \<Rightarrow> mat4 \<Rightarrow> mat4" where
  "mat_mul a b = Mat4 (row_mat (row0 a) b) (row_mat (row1 a) b)
                      (row_mat (row2 a) b) (row_mat (row3 a) b)"

definition mat4_identity :: mat4 where
  "mat4_identity = Mat4 (Vec4 1 0 0 0) (Vec4 0 1 0 0) (Vec4 0 0 1 0) (Vec4 0 0 0 1)"

text \<open>
  Modelled from the spec: \<^verbatim>\<open>mat4::translation\<close> (in \<^verbatim>\<open>math/linear_algebra.cpp\<close>) yields
  the matrix whose action on homogeneous coordinates adds the x, y and z of its argument;
  the fourth component of the argument is not read.
\<close>

definition mat4_translation :: "vec4 \<Rightarrow> mat4" where
  "mat4_translation v =
     Mat4 (Vec4 1 0 0 (vx v)) (Vec4 0 1 0 (vy v)) (Vec4 0 0 1 (vz v)) (Vec4 0 0 0 1)"

text \<open>
  Modelled from the spec: \<^verbatim>\<open>mat4::scale\<close> (in \<^verbatim>\<open>math/linear_algebra.cpp\<close>) yields the
  diagonal matrix of the components of its argument.
\<close>

definition mat4_scale :: "vec4 \<Rightarrow> mat4" where
  "mat4_scale v =
     Mat4 (Vec4 (vx v) 0 0 0) (Vec4 0 (vy v) 0 0) (Vec4 0 0 (vz v) 0) (Vec4 0 0 0 (vw v))"

text \<open>
  Modelled from the spec: \<^verbatim>\<open>mat4::set_ortho_projection\<close> (in
  \<^verbatim>\<open>math/linear_algebra.cpp\<close>) rebuilds the matrix as the symmetric orthographic
  projection of the box from \<open>- right_edge\<close> to \<open>right_edge\<close>, from \<open>- top_edge\<close> to
  \<open>top_edge\<close> and from \<open>z_near\<close> to \<open>z_far\<close>; it overwrites all sixteen entries.
\<close>

definition set_ortho_projection :: "real \<Rightarrow> real \<Rightarrow> real \<Rightarrow> real \<Rightarrow> mat4" where
  "set_ortho_projection right_edge top_edge z_near z_far =
     Mat4 (Vec4 (1 / right_edge) 0 0 0)
          (Vec4 0 (1 / top_edge) 0 0)
          (Vec4 0 0 (- 2 / (z_far - z_near)) (- (z_far + z_near) / (z_far - z_near)))
          (Vec4 0 0 0 1)"

text \<open>
  \<^verbatim>\<open>m(i, j)\<close> as a read and as an assignment. The source indexes with the literals
  \<open>0\<close>, \<open>1\<close> and \<open>3\<close> only; an index above \<open>3\<close> (an assertion failure of the matrix library)
  does not occur and is mapped to the last row or column.
\<close>

definition vget :: "vec4 \<Rightarrow> nat \<Rightarrow> real" where
  "vget v j = (if j = 0 then vx v else if j = 1 then vy v else if j = 2 then vz v else vw v)"

definition vset :: "vec4 \<Rightarrow> nat \<Rightarrow> real \<Rightarrow> vec4" where
  "vset v j a =
     (if j = 0 then Vec4 a (vy v) (vz v) (vw v)
      else if j = 1 then Vec4 (vx v) a (vz v) (vw v)
      else if j = 2 then Vec4 (vx v) (vy v) a (vw v)
      else Vec4 (vx v) (vy v) (vz v) a)"

definition mrow :: "mat4 \<Rightarrow> nat \<Rightarrow> vec4" where
  "mrow m i = (if i = 0 then row0 m else if i = 1 then row1 m
               else if i = 2 then row2 m else row3 m)"

definition elem :: "mat4 \<Rightarrow> nat \<Rightarrow> nat \<Rightarrow> real" where
  "elem m i j = vget (mrow m i) j"

definition set_elem :: "mat4 \<Rightarrow> nat \<Rightarrow> nat \<Rightarrow> real \<Rightarrow> mat4" where
  "set_elem m i j a =
     (if i = 0 then Mat4 (vset (row0 m) j a) (row1 m) (row2 m) (row3 m)
      else if i = 1 then Mat4 (row0 m) (vset (row1 m) j a) (row2 m) (row3 m)
      else if i = 2 then Mat4 (row0 m) (row1 m) (vset (row2 m) j a) (row3 m)
      else Mat4 (row0 m) (row1 m) (row2 m) (vset (row3 m) j a))"

text \<open>
  Modelled from the spec: \<^verbatim>\<open>mat4::inv\<close> (in \<^verbatim>\<open>math/linear_algebra.cpp\<close>) is the matrix
  inverse. It is written here as the adjugate divided by the determinant, both expanded
  along the 2x2 minors of the upper and the lower pair of rows. A singular matrix has no
  inverse (the spec calls inverting one a caller error); the value of \<open>mat4_inv\<close> there is
  the zero matrix and carries no meaning.
\<close>

fun mat4_det :: "mat4 \<Rightarrow> real" where
  "mat4_det (Mat4 (Vec4 a0 a1 a2 a3) (Vec4 b0 b1 b2 b3) (Vec4 c0 c1 c2 c3) (Vec4 d0 d1 d2 d3)) =
     (a0 * b1 - a1 * b0) * (c2 * d3 - c3 * d2) - (a0 * b2 - a2 * b0) * (c1 * d3 - c3 * d1)
   + (a0 * b3 - a3 * b0) * (c1 * d2 - c2 * d1) + (a1 * b2 - a2 * b1) * (c0 * d3 - c3 * d0)
   - (a1 * b3 - a3 * b1) * (c0 * d2 - c2 * d0) + (a2 * b3 - a3 * b2) * (c0 * d1 - c1 * d0)"

fun mat4_adj :: "mat4 \<Rightarrow> mat4" where
  "mat4_adj (Mat4 (Vec4 a0 a1 a2 a3) (Vec4 b0 b1 b2 b3) (Vec4 c0 c1 c2 c3) (Vec4 d0 d1 d2 d3)) =
     Mat4
      (Vec4 (b1 * (c2 * d3 - c3 * d2) - b2 * (c1 * d3 - c3 * d1) + b3 * (c1 * d2 - c2 * d1))
            (- a1 * (c2 * d3 - c3 * d2) + a2 * (c1 * d3 - c3 * d1) - a3 * (c1 * d2 - c2 * d1))
            (d1 * (a2 * b3 - a3 * b2) - d2 * (a1 * b3 - a3 * b1) + d3 * (a1 * b2 - a2 * b1))
            (- c1 * (a2 * b3 - a3 * b2) + c2 * (a1 * b3 - a3 * b1) - c3 * (a1 * b2 - a2 * b1)))
      (Vec4 (- b0 * (c2 * d3 - c3 * d2) + b2 * (c0 * d3 - c3 * d0) - b3 * (c0 * d2 - c2 * d0))
            (a0 * (c2 * d3 - c3 * d2) - a2 * (c0 * d3 - c3 * d0) + a3 * (c0 * d2 - c2 * d0))
            (- d0 * (a2 * b3 - a3 * b2) + d2 * (a0 * b3 - a3 * b0) - d3 * (a0 * b2 - a2 * b0))
            (c0 * (a2 * b3 - a3 * b2) - c2 * (a0 * b3 - a3 * b0) + c3 * (a0 * b2 - a2 * b0)))
      (Vec4 (b0 * (c1 * d3 - c3 * d1) - b1 * (c0 * d3 - c3 * d0) + b3 * (c0 * d1 - c1 * d0))
            (- a0 * (c1 * d3 - c3 * d1) + a1 * (c0 * d3 - c3 * d0) - a3 * (c0 * d1 - c1 * d0))
            (d0 * (a1 * b3 - a3 * b1) - d1 * (a0 * b3 - a3 * b0) + d3 * (a0 * b1 - a1 * b0))
            (- c0 * (a1 * b3 - a3 * b1) + c1 * (a0 * b3 - a3 * b0) - c3 * (a0 * b1 - a1 * b0)))
      (Vec4 (- b0 * (c1 * d2 - c2 * d1) + b1 * (c0 * d2 - c2 * d0) - b2 * (c0 * d1 - c1 * d0))
            (a0 * (c1 * d2 - c2 * d1) - a1 * (c0 * d2 - c2 * d0) + a2 * (c0 * d1 - c1 * d0))
            (- d0 * (a1 * b2 - a2 * b1) + d1 * (a0 * b2 - a2 * b0) - d2 * (a0 * b1 - a1 * b0))
            (c0 * (a1 * b2 - a2 * b1) - c1 * (a0 * b2 - a2 * b0) + c2 * (a0 * b1 - a1 * b0)))"

definition mat_scalar :: "mat4 \<Rightarrow> real \<Rightarrow> mat4" where
  "mat_scalar m f = Mat4 (vec_scalar (row0 m) f) (vec_scalar (row1 m) f)
                         (vec_scalar (row2 m) f) (vec_scalar (row3 m) f)"

definition mat4_inv :: "mat4 \<Rightarrow> mat4" where
  "mat4_inv m = mat_scalar (mat4_adj m) (1 / mat4_det m)"

section \<open>The camera and its collaborators\<close>

text \<open>
  The fields of \<^verbatim>\<open>Camera\<close> that \<^verbatim>\<open>camera.cpp\<close> reads and writes, together with the pose of
  the owning GameObject (\<^verbatim>\<open>game_object_->get_pose()\<close>, \<^verbatim>\<open>set_pose\<close>), which only the camera
  writes. A member \<^verbatim>\<open>name_\<close> of the class is the field \<open>name\<close> of the record. The
  constructor initialises the two canvas sizes only, so a camera state is any value of the
  record. The functions of this file dereference \<^verbatim>\<open>game_object_\<close> and the stage's object
  \<^verbatim>\<open>"buffer"\<close> without a check (the null test of \<^verbatim>\<open>update_object_pose\<close> apart); both objects
  exist in the model. The copy constructor and the copy assignment, which take the members
  of another camera, are not among the operations studied here.
\<close>

record camera =
  projection :: mat4
  canvas_width :: int
  canvas_height :: int
  zoom_power :: real
  camera_pos_x :: real
  camera_pos_y :: real
  scale :: mat4
  game_object_pose :: mat4

text \<open>
  What the camera reads of the GameObject \<^verbatim>\<open>"buffer"\<close>: its pose and the two extents of its
  \<^verbatim>\<open>Buffer\<close> component.
\<close>

record buffer_object =
  buffer_pose :: mat4
  buffer_width_f :: real
  buffer_height_f :: real

datatype key = Key_Up | Key_Down | Key_Left | Key_Right | Key_Plus | Key_Minus

text \<open>
  \<^verbatim>\<open>KeyboardState\<close>: whether the Control modifier is held, and which keys are down.
\<close>

record keyboard_state =
  is_modifier_key_pressed :: bool
  is_key_pressed :: "key \<Rightarrow> bool"

datatype EventProcessCode = IGNORED | INTERCEPTED

definition window_resized :: "int \<Rightarrow> int \<Rightarrow> camera \<Rightarrow> camera" where
  "window_resized w h c =
     c\<lparr>projection := set_ortho_projection (of_int w / 2) (of_int h / 2) (- 1) 1,
       canvas_width := w,
       canvas_height := h\<rparr>"

definition update_object_pose :: "camera \<Rightarrow> camera" where
  "update_object_pose c =
     (let position = Vec4 (- camera_pos_x c) (- camera_pos_y c) 0 1;
          pose = mat_mul (scale c) (mat4_translation position)
      in c\<lparr>game_object_pose := pose\<rparr>)"

definition compute_zoom :: "real \<Rightarrow> camera \<Rightarrow> real" where
  "compute_zoom zf c = zf powr zoom_power c"

definition scale_at :: "real \<Rightarrow> vec4 \<Rightarrow> real \<Rightarrow> camera \<Rightarrow> camera" where
  "scale_at zf center_ndc delta c =
     (let vp_inv = mat_mul (game_object_pose c) (mat4_inv (projection c));
          delta_zoom = zf powr (- delta);
          center_pos = mat_vec (mat_mul (mat4_inv (scale c)) vp_inv) center_ndc;
          s1 = mat_mul (mat_mul (mat_mul (scale c) (mat4_translation center_pos))
                                (mat4_scale (Vec4 delta_zoom delta_zoom 1 1)))
                       (mat4_translation (vec_neg center_pos));
          x1 = camera_pos_x c - elem s1 0 3 / elem s1 0 0;
          y1 = camera_pos_y c - elem s1 1 3 / elem s1 1 1;
          s2 = set_elem (set_elem s1 0 3 0) 1 3 0
      in update_object_pose
           (c\<lparr>scale := s2, camera_pos_x := x1, camera_pos_y := y1,
              zoom_power := zoom_power c + delta\<rparr>))"

definition scroll_callback ::
  "real \<Rightarrow> int \<Rightarrow> int \<Rightarrow> int \<Rightarrow> int \<Rightarrow> real \<Rightarrow> camera \<Rightarrow> camera" where
  "scroll_callback zf mouse_x mouse_y win_w win_h delta c =
     (let mouse_pos_ndc =
            Vec4 (2 * (of_int mouse_x - of_int win_w / 2) / of_int win_w)
                 (- 2 * (of_int mouse_y - of_int win_h / 2) / of_int win_h)
                 0 1
      in scale_at zf mouse_pos_ndc delta c)"

text \<open>
  The two loops of \<^verbatim>\<open>set_initial_zoom\<close>. Their state is \<^verbatim>\<open>zoom_power_\<close> and the local
  \<^verbatim>\<open>new_zoom\<close>; \<open>cw\<close>, \<open>ch\<close> are the canvas sizes as floats and \<open>bx\<close>, \<open>by\<close> the buffer
  extents. Nothing in the loops bounds the number of rounds, so a run that never leaves the
  loop is the value \<open>None\<close>.
\<close>

partial_function (option) zoom_in_loop ::
  "real \<Rightarrow> real \<Rightarrow> real \<Rightarrow> real \<Rightarrow> real \<Rightarrow> real \<Rightarrow> real \<Rightarrow> (real \<times> real) option" where
  "zoom_in_loop zf cw ch bx by zp new_zoom =
     (if cw > new_zoom * bx \<and> ch > new_zoom * by
      then zoom_in_loop zf cw ch bx by (zp + 1) (zf powr (zp + 1))
      else Some (zp, new_zoom))"

partial_function (option) zoom_out_loop ::
  "real \<Rightarrow> real \<Rightarrow> real \<Rightarrow> real \<Rightarrow> real \<Rightarrow> real \<Rightarrow> real \<Rightarrow> (real \<times> real) option" where
  "zoom_out_loop zf cw ch bx by zp new_zoom =
     (if cw < new_zoom * bx \<or> ch < new_zoom * by
      then zoom_out_loop zf cw ch bx by (zp - 1) (zf powr (zp - 1))
      else Some (zp, new_zoom))"

text \<open>
  The two lines \<^verbatim>\<open>zoom = 1.0f / compute_zoom(); scale_ = mat4::scale(vec4(zoom, zoom, 1, 1))\<close>
  that end \<^verbatim>\<open>set_initial_zoom\<close> and recur in \<^verbatim>\<open>handle_key_events\<close> and \<^verbatim>\<open>move_to\<close>.
\<close>

definition rebuild_scale :: "real \<Rightarrow> camera \<Rightarrow> camera" where
  "rebuild_scale zf c =
     (let zoom = 1 / compute_zoom zf c
      in c\<lparr>scale := mat4_scale (Vec4 zoom zoom 1 1)\<rparr>)"

definition set_initial_zoom :: "real \<Rightarrow> buffer_object \<Rightarrow> camera \<Rightarrow> camera option" where
  "set_initial_zoom zf buf c =
     (let buf_dim = mat_vec (buffer_pose buf)
                      (Vec4 (buffer_width_f buf) (buffer_height_f buf) 0 1);
          bx = \<bar>vx buf_dim\<bar>;
          by = \<bar>vy buf_dim\<bar>;
          canvas_width_f = of_int (canvas_width c);
          canvas_height_f = of_int (canvas_height c)
      in if canvas_width_f > bx \<and> canvas_height_f > by then
           (case zoom_in_loop zf canvas_width_f canvas_height_f bx by (0 + 1) (zf powr (0 + 1)) of
              None \<Rightarrow> None
            | Some (zp, new_zoom) \<Rightarrow>
                Some (rebuild_scale zf (c\<lparr>zoom_power := zp - 1\<rparr>)))
         else if canvas_width_f < bx \<or> canvas_height_f < by then
           (case zoom_out_loop zf canvas_width_f canvas_height_f bx by (0 - 1) (zf powr (0 - 1)) of
              None \<Rightarrow> None
            | Some (zp, new_zoom) \<Rightarrow>
                Some (rebuild_scale zf (c\<lparr>zoom_power := zp\<rparr>)))
         else Some (rebuild_scale zf (c\<lparr>zoom_power := 0\<rparr>)))"

definition post_initialize ::
  "real \<Rightarrow> int \<Rightarrow> int \<Rightarrow> buffer_object \<Rightarrow> camera \<Rightarrow> camera option" where
  "post_initialize zf canvas_w canvas_h buf c =
     (case set_initial_zoom zf buf (window_resized canvas_w canvas_h c) of
        None \<Rightarrow> None
      | Some c1 \<Rightarrow> Some (update_object_pose c1))"

text \<open>
  \<^verbatim>\<open>handle_key_events\<close>, called from \<^verbatim>\<open>update\<close> once per tick. The render request that
  follows the pose update goes to the canvas and leaves the camera as it is.
\<close>

definition handle_key_events :: "real \<Rightarrow> keyboard_state \<Rightarrow> camera \<Rightarrow> camera" where
  "handle_key_events zf kb c =
     (if is_modifier_key_pressed kb then
        (let (dy, i1) = (if is_key_pressed kb Key_Up then (- 1, INTERCEPTED)
                         else if is_key_pressed kb Key_Down then (1, INTERCEPTED)
                         else (0, IGNORED));
             (dx, i2) = (if is_key_pressed kb Key_Left then (- 1, INTERCEPTED)
                         else if is_key_pressed kb Key_Right then (1, INTERCEPTED)
                         else (0, i1))
         in if i2 = INTERCEPTED then
              (let c1 = c\<lparr>camera_pos_x := camera_pos_x c - (dx + elem (scale c) 0 3),
                          camera_pos_y := camera_pos_y c - (dy + elem (scale c) 1 3)\<rparr>
               in update_object_pose (rebuild_scale zf c1))
            else c)
      else c)"

definition update :: "real \<Rightarrow> keyboard_state \<Rightarrow> camera \<Rightarrow> camera" where
  "update zf kb c = handle_key_events zf kb c"

definition key_press_event ::
  "real \<Rightarrow> keyboard_state \<Rightarrow> camera \<Rightarrow> EventProcessCode \<times> camera" where
  "key_press_event zf kb c =
     (let screen_center = Vec4 0 0 0 1
      in if is_modifier_key_pressed kb then
           (if is_key_pressed kb Key_Plus then (INTERCEPTED, scale_at zf screen_center 1 c)
            else if is_key_pressed kb Key_Minus then
              (INTERCEPTED, scale_at zf screen_center (- 1) c)
            else if is_key_pressed kb Key_Left \<or> is_key_pressed kb Key_Right \<or>
                    is_key_pressed kb Key_Up \<or> is_key_pressed kb Key_Down then
              (INTERCEPTED, c)
            else (IGNORED, c))
         else (IGNORED, c))"

definition move_to :: "real \<Rightarrow> buffer_object \<Rightarrow> real \<Rightarrow> real \<Rightarrow> camera \<Rightarrow> camera" where
  "move_to zf buf x y c =
     (let buf_dim = Vec4 (buffer_width_f buf) (buffer_height_f buf) 0 1;
          centered_coord = vec_sub (vec_scalar buf_dim (1 / 2)) (Vec4 x y 0 0);
          c1 = rebuild_scale zf c;
          transformed_goal =
            mat_vec (mat_mul (mat4_inv (scale c1)) (buffer_pose buf)) centered_coord
      in update_object_pose
           (c1\<lparr>camera_pos_x := vx transformed_goal,
               camera_pos_y := vy transformed_goal\<rparr>))"

definition get_position :: "buffer_object \<Rightarrow> camera \<Rightarrow> vec4" where
  "get_position buf c =
     (let buf_dim = Vec4 (buffer_width_f buf) (buffer_height_f buf) 0 1;
          pos_vec = Vec4 (camera_pos_x c) (camera_pos_y c) 0 1
      in vec_sub (vec_scalar buf_dim (1 / 2))
                 (mat_vec (mat_mul (mat4_inv (buffer_pose buf)) (scale c)) pos_vec))"

definition recenter_camera :: "real \<Rightarrow> buffer_object \<Rightarrow> camera \<Rightarrow> camera option" where
  "recenter_camera zf buf c =
     (case set_initial_zoom zf buf (c\<lparr>camera_pos_x := 0, camera_pos_y := 0\<rparr>) of
        None \<Rightarrow> None
      | Some c1 \<Rightarrow> Some (update_object_pose c1))"

definition mouse_drag_event :: "int \<Rightarrow> int \<Rightarrow> camera \<Rightarrow> camera" where
  "mouse_drag_event mouse_x mouse_y c =
     update_object_pose
       (c\<lparr>camera_pos_x := camera_pos_x c + of_int mouse_x,
          camera_pos_y := camera_pos_y c + of_int mouse_y\<rparr>)"

definition post_buffer_update :: "camera \<Rightarrow> bool" where
  "post_buffer_update c = True"


section \<open>Calls and runs\<close>

text \<open>
  The calls the host dispatches to a camera after \<^verbatim>\<open>post_initialize\<close>. A call carries what
  the source reads from the canvas (\<^verbatim>\<open>mouse_x()\<close>, \<^verbatim>\<open>mouse_y()\<close>, \<^verbatim>\<open>width()\<close>,
  \<^verbatim>\<open>height()\<close>) or from the keyboard at that moment.
\<close>

datatype camera_call =
    Window_resized int int
  | Scroll_callback int int int int real
  | Update keyboard_state
  | Key_press_event keyboard_state
  | Mouse_drag_event int int
  | Move_to real real
  | Recenter_camera

fun perform :: "real \<Rightarrow> buffer_object \<Rightarrow> camera_call \<Rightarrow> camera \<Rightarrow> camera option" where
  "perform zf buf (Window_resized w h) c = Some (window_resized w h c)"
| "perform zf buf (Scroll_callback mouse_x mouse_y win_w win_h delta) c =
     Some (scroll_callback zf mouse_x mouse_y win_w win_h delta c)"
| "perform zf buf (Update kb) c = Some (update zf kb c)"
| "perform zf buf (Key_press_event kb) c = Some (snd (key_press_event zf kb c))"
| "perform zf buf (Mouse_drag_event mouse_x mouse_y) c = Some (mouse_drag_event mouse_x mouse_y c)"
| "perform zf buf (Move_to x y) c = Some (move_to zf buf x y c)"
| "perform zf buf Recenter_camera c = recenter_camera zf buf c"

text \<open>
  A run is a sequence of calls, each with the buffer object it finds on the stage (the buffer
  may be replaced or rotated between two calls). A call that does not return ends the run.
\<close>

fun run :: "real \<Rightarrow> (buffer_object \<times> camera_call) list \<Rightarrow> camera \<Rightarrow> camera option" where
  "run zf [] c = Some c"
| "run zf ((buf, k) # rest) c =
     (case perform zf buf k c of None \<Rightarrow> None | Some c1 \<Rightarrow> run zf rest c1)"

text \<open>A sequence of \<^verbatim>\<open>scale_at\<close> calls, each with its anchor and its delta.\<close>

fun scale_at_seq :: "real \<Rightarrow> (vec4 \<times> real) list \<Rightarrow> camera \<Rightarrow> camera" where
  "scale_at_seq zf [] c = c"
| "scale_at_seq zf ((center_ndc, delta) # rest) c =
     scale_at_seq zf rest (scale_at zf center_ndc delta c)"

section \<open>Notions of the specification\<close>

text \<open>
  The buffer extents that \<^verbatim>\<open>set_initial_zoom\<close> compares with the canvas: the extents of the
  \<^verbatim>\<open>Buffer\<close> component transformed by the pose of the buffer object, in absolute value.
\<close>

definition buf_dim_x :: "buffer_object \<Rightarrow> real" where
  "buf_dim_x buf =
     \<bar>vx (mat_vec (buffer_pose buf) (Vec4 (buffer_width_f buf) (buffer_height_f buf) 0 1))\<bar>"

definition buf_dim_y :: "buffer_object \<Rightarrow> real" where
  "buf_dim_y buf =
     \<bar>vy (mat_vec (buffer_pose buf) (Vec4 (buffer_width_f buf) (buffer_height_f buf) 0 1))\<bar>"

text \<open>
  The buffer, zoomed by the integer power \<open>k\<close> of the zoom factor, fits the canvas: with room
  to spare in neither, or in both dimensions.
\<close>

definition fits :: "real \<Rightarrow> buffer_object \<Rightarrow> camera \<Rightarrow> int \<Rightarrow> bool" where
  "fits zf buf c k \<longleftrightarrow>
     zf powr of_int k * buf_dim_x buf \<le> of_int (canvas_width c) \<and>
     zf powr of_int k * buf_dim_y buf \<le> of_int (canvas_height c)"

definition fits_strictly :: "real \<Rightarrow> buffer_object \<Rightarrow> camera \<Rightarrow> int \<Rightarrow> bool" where
  "fits_strictly zf buf c k \<longleftrightarrow>
     zf powr of_int k * buf_dim_x buf < of_int (canvas_width c) \<and>
     zf powr of_int k * buf_dim_y buf < of_int (canvas_height c)"

text \<open>
  The matrix-level zoom is the inverse of the scalar zoom level: \<open>scale\<close> is the diagonal
  matrix of \<open>zf powr (- zoom_power)\<close>, twice, and of \<open>1\<close>, twice.
\<close>

definition scale_matches_zoom :: "real \<Rightarrow> camera \<Rightarrow> bool" where
  "scale_matches_zoom zf c \<longleftrightarrow>
     scale c = mat4_scale (Vec4 (zf powr (- zoom_power c)) (zf powr (- zoom_power c)) 1 1)"

text \<open>The pose of the owning GameObject agrees with the camera parameters.\<close>

definition pose_in_sync :: "camera \<Rightarrow> bool" where
  "pose_in_sync c \<longleftrightarrow>
     game_object_pose c =
       mat_mul (scale c) (mat4_translation (Vec4 (- camera_pos_x c) (- camera_pos_y c) 0 1))"

text \<open>
  A call mutates the camera and is meant to end on \<^verbatim>\<open>update_object_pose\<close>: every call but
  a resize, and of the keyboard calls those whose keys the camera intercepts (\<^verbatim>\<open>Ctrl\<close> with
  an arrow key in \<^verbatim>\<open>update\<close>, \<^verbatim>\<open>Ctrl\<close> with plus or minus in \<^verbatim>\<open>key_press_event\<close>).
\<close>

fun moves_camera :: "camera_call \<Rightarrow> bool" where
  "moves_camera (Window_resized w h) = False"
| "moves_camera (Update kb) =
     (is_modifier_key_pressed kb \<and>
      (is_key_pressed kb Key_Up \<or> is_key_pressed kb Key_Down \<or>
       is_key_pressed kb Key_Left \<or> is_key_pressed kb Key_Right))"
| "moves_camera (Key_press_event kb) =
     (is_modifier_key_pressed kb \<and> (is_key_pressed kb Key_Plus \<or> is_key_pressed kb Key_Minus))"
| "moves_camera k = True"

text \<open>
  A pose that is invertible and acts on the x, y plane without reading z or the translation
  column: a rotation about the viewing axis, a flip or a scaling of the axes, with or
  without a shift along z.
\<close>

definition planar_pose :: "mat4 \<Rightarrow> bool" where
  "planar_pose m \<longleftrightarrow>
     mat4_det m \<noteq> 0 \<and> elem m 0 2 = 0 \<and> elem m 0 3 = 0 \<and> elem m 1 2 = 0 \<and> elem m 1 3 = 0"

text \<open>The homogeneous point of a vector: its x, y, z with fourth component one.\<close>

definition point :: "vec4 \<Rightarrow> vec4" where
  "point v = Vec4 (vx v) (vy v) (vz v) 1"

section \<open>Sample objects\<close>

text \<open>
  A camera as the constructor leaves it (both canvas sizes zero), with the members the
  constructor does not initialise at zero and the matrices at the identity.
\<close>

definition camera_new :: camera where
  "camera_new =
     \<lparr>projection = mat4_identity, canvas_width = 0, canvas_height = 0, zoom_power = 0,
      camera_pos_x = 0, camera_pos_y = 0, scale = mat4_identity,
      game_object_pose = mat4_identity\<rparr>"

definition buffer_200_100 :: buffer_object where
  "buffer_200_100 =
     \<lparr>buffer_pose = mat4_identity, buffer_width_f = 200, buffer_height_f = 100\<rparr>"

definition buffer_10_10 :: buffer_object where
  "buffer_10_10 = \<lparr>buffer_pose = mat4_identity, buffer_width_f = 10, buffer_height_f = 10\<rparr>"

text \<open>A buffer of 2 by 2 whose object is moved one unit along x.\<close>

definition buffer_shifted :: buffer_object where
  "buffer_shifted =
     \<lparr>buffer_pose = mat4_translation (Vec4 1 0 0 1), buffer_width_f = 2, buffer_height_f = 2\<rparr>"

text \<open>A buffer of 4 by 2 whose object is turned a quarter about the viewing axis.\<close>

definition buffer_turned :: buffer_object where
  "buffer_turned =
     \<lparr>buffer_pose = Mat4 (Vec4 0 (- 1) 0 0) (Vec4 1 0 0 0) (Vec4 0 0 1 0) (Vec4 0 0 0 1),
      buffer_width_f = 4, buffer_height_f = 2\<rparr>"

text \<open>A camera whose position has been set but whose pose has not been recomputed yet.\<close>

definition camera_stale :: camera where
  "camera_stale = camera_new\<lparr>camera_pos_x := 1\<rparr>"

text \<open>
  The camera after \<^verbatim>\<open>post_initialize\<close> on a canvas of 800 by 800 with the buffer of 200 by
  100 and the zoom factor 1.1, and after a scroll, a drag and a keyboard pan.
\<close>

definition camera_fitted :: camera where
  "camera_fitted =
     update_object_pose
       (rebuild_scale (11 / 10) ((window_resized 800 800 camera_new)\<lparr>zoom_power := 14\<rparr>))"

definition sample_calls :: "(buffer_object \<times> camera_call) list" where
  "sample_calls =
     [(buffer_200_100, Scroll_callback 600 200 800 800 1),
      (buffer_200_100, Mouse_drag_event 10 5),
      (buffer_200_100,
       Update \<lparr>is_modifier_key_pressed = True, is_key_pressed = (\<lambda>k. k = Key_Left)\<rparr>)]"

definition camera_after :: camera where
  "camera_after =
     update (11 / 10) \<lparr>is_modifier_key_pressed = True, is_key_pressed = (\<lambda>k. k = Key_Left)\<rparr>
       (mouse_drag_event 10 5 (scroll_callback (11 / 10) 600 200 800 800 1 camera_fitted))"

section \<open>Binary32 addition\<close>

text \<open>
  \<^verbatim>\<open>camera_pos_x_\<close> and \<^verbatim>\<open>camera_pos_y_\<close> are binary32 numbers and \<^verbatim>\<open>+=\<close> rounds. A finite
  binary32 number is \<open>mantissa * 2 ^ exponent\<close> with a mantissa below \<open>2 ^ 24\<close> in
  magnitude; a sum is computed exactly and then rounded to the nearest such number, ties to
  the even mantissa. Results beyond the largest finite number (an infinity in the program)
  are outside this model; the exponent of a sum is never below those of its summands, so
  there is no underflow to consider.
\<close>

datatype f32 = F32 (mantissa: int) (exponent: int)

definition f32_val :: "f32 \<Rightarrow> real" where
  "f32_val a =
     (if 0 \<le> exponent a then of_int (mantissa a) * 2 ^ nat (exponent a)
      else of_int (mantissa a) / 2 ^ nat (- exponent a))"

text \<open>The number of low bits to drop from a magnitude to bring it below \<open>2 ^ 24\<close>.\<close>

function excess_bits :: "nat \<Rightarrow> nat" where
  "excess_bits n = (if n < 2 ^ 24 then 0 else Suc (excess_bits (n div 2)))"
  by pat_completeness auto
termination
  by (relation "measure id") auto

declare excess_bits.simps [simp del]

definition f32_round :: "int \<Rightarrow> int \<Rightarrow> f32" where
  "f32_round m e =
     (let k = excess_bits (nat \<bar>m\<bar>)
      in if k = 0 then F32 m e
         else (let q = m div 2 ^ k; r = m mod 2 ^ k; half = 2 ^ (k - 1)
               in F32 (if r < half \<or> (r = half \<and> even q) then q else q + 1) (e + int k)))"

definition f32_add :: "f32 \<Rightarrow> f32 \<Rightarrow> f32" where
  "f32_add a b =
     (let e = min (exponent a) (exponent b)
      in f32_round (mantissa a * 2 ^ nat (exponent a - e) + mantissa b * 2 ^ nat (exponent b - e)) e)"

text \<open>\<^verbatim>\<open>static_cast<float>\<close> of an \<^verbatim>\<open>int\<close>.\<close>

definition f32_of_int :: "int \<Rightarrow> f32" where
  "f32_of_int n = f32_round n 0"

text \<open>
  The two assignments of \<^verbatim>\<open>mouse_drag_event\<close> in binary32, on the pair of
  \<^verbatim>\<open>camera_pos_x_\<close> and \<^verbatim>\<open>camera_pos_y_\<close>.
\<close>

definition mouse_drag_event_f32 :: "int \<Rightarrow> int \<Rightarrow> f32 \<times> f32 \<Rightarrow> f32 \<times> f32" where
  "mouse_drag_event_f32 mouse_x mouse_y pos =
     (f32_add (fst pos) (f32_of_int mouse_x), f32_add (snd pos) (f32_of_int mouse_y))"


section \<open>Binary32 products, quotients and powers\<close>





text \<open>
  The ratio \<open>p / q\<close> (with \<open>0 < q\<close>) times \<open>2 ^ e\<close>, rounded to the nearest binary32 number,
  ties to the even mantissa. The numerator is shifted far enough for the integer quotient
  to have more than 25 bits; whether the division left a remainder decides a tie.
\<close>

definition f32_round_ratio :: "int \<Rightarrow> int \<Rightarrow> int \<Rightarrow> f32" where
  "f32_round_ratio p q e =
     (let s = 49 + excess_bits (nat q);
          n = \<bar>p\<bar> * 2 ^ s;
          big = n div q;
          sticky = (n mod q \<noteq> 0);
          k = excess_bits (nat big)
      in if k = 0 then F32 0 e
         else (let m = big div 2 ^ k; r = big mod 2 ^ k; half = 2 ^ (k - 1)
               in F32 (sgn p * (if half < r \<or> (r = half \<and> (sticky \<or> odd m)) then m + 1 else m))
                      (e - int s + int k)))"



text \<open>The binary32 number nearest to 1.1, the \<^verbatim>\<open>1.1f\<close> of the program.\<close>

definition zoom_factor_f32 :: f32 where
  "zoom_factor_f32 = F32 9227469 (- 23)"

section \<open>The scale matrix in binary32\<close>












section \<open>Matrix algebra\<close>

lemmas vec_defs = vec_neg_def vec_sub_def vec_scalar_def dot_def point_def

lemmas mat_defs = col0_def col1_def col2_def col3_def mat_vec_def row_mat_def mat_mul_def
  mat4_identity_def mat4_translation_def mat4_scale_def mat_scalar_def

lemmas elem_defs = vget_def vset_def mrow_def elem_def set_elem_def

lemma mat_vec_mul: "mat_vec (mat_mul a b) v = mat_vec a (mat_vec b v)"
  by (cases a; cases b; cases v) (simp add: vec_defs mat_defs algebra_simps)

lemma mat_mul_assoc: "mat_mul (mat_mul a b) c = mat_mul a (mat_mul b c)"
  by (cases a; cases b; cases c) (simp add: vec_defs mat_defs algebra_simps)

lemma mat_vec_identity [simp]: "mat_vec mat4_identity v = v"
  by (cases v) (simp add: vec_defs mat_defs)

text \<open>The adjugate times the matrix is the determinant times the identity.\<close>

lemma adj_mul: "mat_mul (mat4_adj m) m = mat_scalar mat4_identity (mat4_det m)"
proof (cases m)
  case (Mat4 r0 r1 r2 r3)
  then show ?thesis
    by (cases r0; cases r1; cases r2; cases r3) (simp add: vec_defs mat_defs algebra_simps)
qed

lemma mat_scalar_mul: "mat_mul (mat_scalar a f) b = mat_scalar (mat_mul a b) f"
  by (cases a; cases b) (simp add: vec_defs mat_defs algebra_simps)

lemma inv_mul: "mat4_det m \<noteq> 0 \<Longrightarrow> mat_mul (mat4_inv m) m = mat4_identity"
  by (simp add: mat4_inv_def mat_scalar_mul adj_mul) (simp add: vec_defs mat_defs)

lemma inv_scale:
  "z \<noteq> 0 \<Longrightarrow> mat4_inv (mat4_scale (Vec4 z z 1 1)) = mat4_scale (Vec4 (1 / z) (1 / z) 1 1)"
  by (simp add: mat4_inv_def mat_defs vec_defs)

text \<open>Zooming about a point: the point itself stays where it is.\<close>

lemma anchor_fixed:
  "mat_vec (mat_mul (mat_mul (mat4_translation p) (mat4_scale (Vec4 s s 1 1)))
                    (mat4_translation (vec_neg p))) (point p) = point p"
  by (cases p) (simp add: vec_defs mat_defs algebra_simps)

section \<open>What \<^verbatim>\<open>update_object_pose\<close> touches\<close>

lemma scale_of_update_object_pose [simp]: "scale (update_object_pose c) = scale c"
  and camera_pos_x_of_update_object_pose [simp]:
    "camera_pos_x (update_object_pose c) = camera_pos_x c"
  and camera_pos_y_of_update_object_pose [simp]:
    "camera_pos_y (update_object_pose c) = camera_pos_y c"
  and zoom_power_of_update_object_pose [simp]:
    "zoom_power (update_object_pose c) = zoom_power c"
  by (simp_all add: update_object_pose_def Let_def)

lemma update_object_pose_in_sync [simp]: "pose_in_sync (update_object_pose c)"
  by (simp add: pose_in_sync_def update_object_pose_def Let_def)

section \<open>Pointer-anchored zoom\<close>

lemma zoom_power_scale_at [simp]:
  "zoom_power (scale_at zf center_ndc delta c) = zoom_power c + delta"
  by (simp add: scale_at_def Let_def)

lemma scale_at_in_sync [simp]: "pose_in_sync (scale_at zf center_ndc delta c)"
  by (simp add: scale_at_def Let_def)

text \<open>
  C1. For every camera state \<open>c\<close>, anchor \<open>center_ndc\<close> and delta \<open>d\<close>, \<^verbatim>\<open>scale_at\<close> takes
  \<open>delta_zoom = zf powr (- d)\<close>, maps the anchor through the inverse of \<open>scale\<close> and through
  the pose composed with the inverse projection to \<open>center_pos\<close>, and multiplies \<open>scale\<close> by
  \<open>translate center_pos * scale delta_zoom * translate (- center_pos)\<close>, a composition that
  leaves the point \<open>center_pos\<close> fixed. The matrix it leaves in \<open>scale\<close> is that product with
  the entries (0, 3) and (1, 3) set to zero (they have gone into the camera position). It
  adds \<open>d\<close> to \<open>zoom_power\<close> and ends with the pose of the owning GameObject equal to
  \<open>scale * translate (- camera_pos_x, - camera_pos_y, 0, 1)\<close>.
\<close>

theorem scale_at_recomposes_scale:
  "(let vp_inv = mat_mul (game_object_pose c) (mat4_inv (projection c));
        delta_zoom = zf powr (- d);
        center_pos = mat_vec (mat_mul (mat4_inv (scale c)) vp_inv) center_ndc;
        zoom_about = mat_mul (mat_mul (mat4_translation center_pos)
                                      (mat4_scale (Vec4 delta_zoom delta_zoom 1 1)))
                             (mat4_translation (vec_neg center_pos));
        c1 = scale_at zf center_ndc d c
    in scale c1 = set_elem (set_elem (mat_mul (scale c) zoom_about) 0 3 0) 1 3 0
     \<and> mat_vec zoom_about (point center_pos) = point center_pos
     \<and> zoom_power c1 = zoom_power c + d
     \<and> game_object_pose c1 =
         mat_mul (scale c1)
           (mat4_translation (Vec4 (- camera_pos_x c1) (- camera_pos_y c1) 0 1)))"
proof -
  have "pose_in_sync (scale_at zf center_ndc d c)" by simp
  then show ?thesis
    unfolding Let_def pose_in_sync_def
    by (simp add: anchor_fixed) (simp add: scale_at_def Let_def mat_mul_assoc)
qed

lemma zoom_power_scale_at_seq:
  "zoom_power (scale_at_seq zf calls c) = zoom_power c + sum_list (map snd calls)"
  by (induction calls arbitrary: c) (auto simp: add.assoc)

text \<open>
  C5. For every sequence of \<^verbatim>\<open>scale_at\<close> calls with deltas \<open>d1, ..., dn\<close> on a camera whose
  \<open>zoom_power\<close> starts at \<open>0\<close>, \<^verbatim>\<open>compute_zoom()\<close> afterwards is the zoom factor raised to
  \<open>d1 + ... + dn\<close>; each call adds exactly its delta to \<open>zoom_power\<close>.
\<close>

theorem compute_zoom_after_scale_at_seq:
  assumes "zoom_power c = 0"
  shows "compute_zoom zf (scale_at_seq zf calls c) = zf powr sum_list (map snd calls)
       \<and> zoom_power (scale_at zf center_ndc d c1) = zoom_power c1 + d"
  using assms by (simp add: compute_zoom_def zoom_power_scale_at_seq)

theorem compute_zoom_after_scale_at_seq_witness:
  "zoom_power camera_new = 0
   \<and> compute_zoom (11 / 10)
       (scale_at_seq (11 / 10)
          [(Vec4 0 0 0 1, 1), (Vec4 0 0 0 1, 1), (Vec4 0 0 0 1, - 2)] camera_new)
     = (11 / 10) powr
         sum_list (map snd [(Vec4 0 0 0 1, 1 :: real), (Vec4 0 0 0 1, 1), (Vec4 0 0 0 1, - 2)])"
proof -
  have h: "zoom_power camera_new = 0" by (simp add: camera_new_def)
  show ?thesis
    using h compute_zoom_after_scale_at_seq [OF h, of "11 / 10"
        "[(Vec4 0 0 0 1, 1), (Vec4 0 0 0 1, 1), (Vec4 0 0 0 1, - 2)]"]
    by blast
qed

section \<open>Resizing\<close>

text \<open>
  C9. For every camera state and every pair \<open>(w, h)\<close>, a second \<^verbatim>\<open>window_resized(w, h)\<close>
  right after the first leaves the whole camera state as the first call left it.
\<close>

theorem window_resized_idempotent:
  "window_resized w h (window_resized w h c) = window_resized w h c"
  by (simp add: window_resized_def)


section \<open>The scale matrix carries the zoom and nothing else\<close>

lemma zoom_about_diagonal:
  "set_elem (set_elem
      (mat_mul (mat_mul (mat_mul (mat4_scale (Vec4 z z 1 1)) (mat4_translation p))
                        (mat4_scale (Vec4 s s 1 1)))
               (mat4_translation (vec_neg p))) 0 3 0) (Suc 0) 3 0
   = mat4_scale (Vec4 (z * s) (z * s) 1 1)"
  by (cases p) (simp add: vec_defs mat_defs elem_defs)

lemma rebuild_scale_matches_zoom [simp]: "scale_matches_zoom zf (rebuild_scale zf c)"
  by (simp add: scale_matches_zoom_def rebuild_scale_def compute_zoom_def Let_def powr_minus_divide)

lemma update_object_pose_matches_zoom [simp]:
  "scale_matches_zoom zf (update_object_pose c) = scale_matches_zoom zf c"
  by (simp add: scale_matches_zoom_def)

lemma scale_at_matches_zoom:
  assumes "scale_matches_zoom zf c"
  shows "scale_matches_zoom zf (scale_at zf center_ndc delta c)"
proof -
  have "scale c = mat4_scale (Vec4 (zf powr (- zoom_power c)) (zf powr (- zoom_power c)) 1 1)"
    using assms by (simp add: scale_matches_zoom_def)
  moreover have "zf powr (- zoom_power c - delta) = zf powr (- zoom_power c) * zf powr (- delta)"
    by (simp add: powr_add [symmetric])
  ultimately show ?thesis
    by (simp add: scale_matches_zoom_def scale_at_def Let_def zoom_about_diagonal)
qed

lemma set_initial_zoom_matches_zoom:
  "set_initial_zoom zf buf c = Some c1 \<Longrightarrow> scale_matches_zoom zf c1"
  by (auto simp: set_initial_zoom_def Let_def split: if_splits option.splits)

lemma post_initialize_matches_zoom:
  "post_initialize zf w h buf c = Some c1 \<Longrightarrow> scale_matches_zoom zf c1"
  by (auto simp: post_initialize_def set_initial_zoom_matches_zoom split: option.splits)

lemma recenter_camera_matches_zoom:
  "recenter_camera zf buf c = Some c1 \<Longrightarrow> scale_matches_zoom zf c1"
  by (auto simp: recenter_camera_def set_initial_zoom_matches_zoom split: option.splits)

lemma handle_key_events_matches_zoom:
  "scale_matches_zoom zf c \<Longrightarrow> scale_matches_zoom zf (handle_key_events zf kb c)"
  by (simp add: handle_key_events_def Let_def split: prod.splits)

lemma key_press_event_matches_zoom:
  "scale_matches_zoom zf c \<Longrightarrow> scale_matches_zoom zf (snd (key_press_event zf kb c))"
  by (simp add: key_press_event_def Let_def scale_at_matches_zoom)

lemma move_to_matches_zoom [simp]: "scale_matches_zoom zf (move_to zf buf x y c)"
proof -
  have "scale_matches_zoom zf (rebuild_scale zf c)" by simp
  then show ?thesis
    by (simp add: move_to_def Let_def scale_matches_zoom_def)
qed

lemma mouse_drag_event_matches_zoom:
  "scale_matches_zoom zf c \<Longrightarrow> scale_matches_zoom zf (mouse_drag_event mx my c)"
  by (simp add: mouse_drag_event_def scale_matches_zoom_def)

lemma window_resized_matches_zoom:
  "scale_matches_zoom zf c \<Longrightarrow> scale_matches_zoom zf (window_resized w h c)"
  by (simp add: window_resized_def scale_matches_zoom_def)

lemma perform_matches_zoom:
  "scale_matches_zoom zf c \<Longrightarrow> perform zf buf k c = Some c1 \<Longrightarrow> scale_matches_zoom zf c1"
  by (cases k)
     (auto simp: update_def scroll_callback_def Let_def scale_at_matches_zoom
        handle_key_events_matches_zoom key_press_event_matches_zoom
        mouse_drag_event_matches_zoom window_resized_matches_zoom
        recenter_camera_matches_zoom)

lemma run_matches_zoom:
  "scale_matches_zoom zf c \<Longrightarrow> run zf calls c = Some c1 \<Longrightarrow> scale_matches_zoom zf c1"
proof (induction calls arbitrary: c)
  case Nil
  then show ?case by simp
next
  case (Cons a calls)
  obtain buf k where a: "a = (buf, k)" by (cases a)
  from Cons.prems(2) obtain c2 where
    step: "perform zf buf k c = Some c2" and rest: "run zf calls c2 = Some c1"
    by (auto simp: a split: option.splits)
  from perform_matches_zoom [OF Cons.prems(1) step] rest show ?case
    by (rule Cons.IH)
qed


lemma scale_entries:
  assumes "scale_matches_zoom zf c"
  shows "elem (scale c) 0 3 = 0" "elem (scale c) 1 3 = 0" "elem (scale c) 2 3 = 0"
    "elem (scale c) 0 0 = zf powr (- zoom_power c)"
    "elem (scale c) 1 1 = zf powr (- zoom_power c)"
    "elem (scale c) 2 2 = 1" "elem (scale c) 3 3 = 1"
    "scale c = mat4_scale (Vec4 (elem (scale c) 0 0) (elem (scale c) 1 1)
                                (elem (scale c) 2 2) (elem (scale c) 3 3))"
  using assms by (simp_all add: scale_matches_zoom_def mat_defs elem_defs)

lemma post_initialize_sample:
  "post_initialize (11 / 10) 800 800 buffer_200_100 camera_new = Some camera_fitted"
  by (simp add: post_initialize_def set_initial_zoom_def buffer_200_100_def window_resized_def
      camera_new_def camera_fitted_def mat_defs vec_defs zoom_in_loop.simps power_divide)

lemma run_sample: "run (11 / 10) sample_calls camera_fitted = Some camera_after"
  by (simp add: sample_calls_def camera_after_def)

text \<open>
  C2. After \<^verbatim>\<open>post_initialize\<close> and after every call that follows it (scroll or keyboard
  zoom through \<^verbatim>\<open>scale_at\<close>, keyboard pan in \<^verbatim>\<open>handle_key_events\<close>, \<^verbatim>\<open>move_to\<close>,
  \<^verbatim>\<open>recenter_camera\<close> with its \<^verbatim>\<open>set_initial_zoom\<close>, \<^verbatim>\<open>mouse_drag_event\<close>, a resize), all
  three translation entries of \<open>scale\<close> are exactly zero and \<open>scale\<close> is the diagonal matrix
  of its own diagonal: it carries no position.
\<close>

theorem scale_translation_entries_zero:
  assumes "1 < zf"
    and "post_initialize zf w h buf0 c0 = Some c1"
    and "run zf calls c1 = Some c"
  shows "elem (scale c) 0 3 = 0 \<and> elem (scale c) 1 3 = 0 \<and> elem (scale c) 2 3 = 0
       \<and> scale c = mat4_scale (Vec4 (elem (scale c) 0 0) (elem (scale c) 1 1)
                                   (elem (scale c) 2 2) (elem (scale c) 3 3))"
proof -
  have "scale_matches_zoom zf c"
    using assms(2,3) by (blast intro: run_matches_zoom post_initialize_matches_zoom)
  then show ?thesis
    using scale_entries(1,2,3,8) by blast
qed

theorem scale_translation_entries_zero_witness:
  "(1 :: real) < 11 / 10
   \<and> post_initialize (11 / 10) 800 800 buffer_200_100 camera_new = Some camera_fitted
   \<and> run (11 / 10) sample_calls camera_fitted = Some camera_after
   \<and> elem (scale camera_after) 0 3 = 0 \<and> elem (scale camera_after) 1 3 = 0
   \<and> elem (scale camera_after) 2 3 = 0
   \<and> scale camera_after =
       mat4_scale (Vec4 (elem (scale camera_after) 0 0) (elem (scale camera_after) 1 1)
                        (elem (scale camera_after) 2 2) (elem (scale camera_after) 3 3))"
proof -
  have zf: "(1 :: real) < 11 / 10" by simp
  show ?thesis
    using zf post_initialize_sample run_sample
      scale_translation_entries_zero [OF zf post_initialize_sample run_sample]
    by blast
qed





lemma zoom_factor_f32_nearest: "f32_round_ratio 11 10 0 = zoom_factor_f32"
  by (simp add: f32_round_ratio_def zoom_factor_f32_def excess_bits.simps Let_def)






section \<open>The pose follows the camera\<close>

lemma window_resized_keeps:
  "game_object_pose (window_resized w h c) = game_object_pose c"
  "scale (window_resized w h c) = scale c"
  "camera_pos_x (window_resized w h c) = camera_pos_x c"
  "camera_pos_y (window_resized w h c) = camera_pos_y c"
  by (simp_all add: window_resized_def)

lemma window_resized_in_sync: "pose_in_sync (window_resized w h c) = pose_in_sync c"
  by (simp add: pose_in_sync_def window_resized_keeps)

lemma handle_key_events_in_sync:
  "moves_camera (Update kb) \<or> pose_in_sync c \<Longrightarrow> pose_in_sync (handle_key_events zf kb c)"
  by (auto simp: handle_key_events_def Let_def)

lemma key_press_event_in_sync:
  "moves_camera (Key_press_event kb) \<or> pose_in_sync c \<Longrightarrow>
   pose_in_sync (snd (key_press_event zf kb c))"
  by (auto simp: key_press_event_def Let_def)

lemma mouse_drag_event_in_sync [simp]: "pose_in_sync (mouse_drag_event mx my c)"
  by (simp add: mouse_drag_event_def)

lemma move_to_in_sync [simp]: "pose_in_sync (move_to zf buf x y c)"
  by (simp add: move_to_def Let_def)

lemma recenter_camera_in_sync: "recenter_camera zf buf c = Some c1 \<Longrightarrow> pose_in_sync c1"
  by (auto simp: recenter_camera_def split: option.splits)

lemma perform_in_sync:
  "moves_camera k \<or> pose_in_sync c \<Longrightarrow> perform zf buf k c = Some c1 \<Longrightarrow> pose_in_sync c1"
  by (cases k)
     (auto simp: update_def scroll_callback_def Let_def window_resized_in_sync
        handle_key_events_in_sync key_press_event_in_sync recenter_camera_in_sync)

text \<open>
  C6, as the code has it. Every call that moves the camera (a scroll, a keyboard zoom or
  pan whose keys are intercepted, a drag, \<^verbatim>\<open>move_to\<close>, \<^verbatim>\<open>recenter_camera\<close>) ends on
  \<^verbatim>\<open>update_object_pose\<close>, so after it the pose of the owning GameObject is
  \<open>scale * translate (- camera_pos_x, - camera_pos_y, 0, 1)\<close> whatever it was before.
  \<^verbatim>\<open>window_resized\<close> does not recompute the pose: it leaves the pose, \<open>scale\<close>, the camera
  position and \<open>zoom_power\<close> as they are. Every call, a resize included, keeps the pose in agreement with the
  camera parameters when it was so before.
\<close>

theorem pose_recomputed_by_every_call_but_resize:
  assumes "perform zf buf k c = Some c1"
  shows "(moves_camera k \<longrightarrow> pose_in_sync c1)
       \<and> (pose_in_sync c \<longrightarrow> pose_in_sync c1)
       \<and> game_object_pose (window_resized w h c) = game_object_pose c
       \<and> scale (window_resized w h c) = scale c
       \<and> camera_pos_x (window_resized w h c) = camera_pos_x c
       \<and> camera_pos_y (window_resized w h c) = camera_pos_y c
       \<and> zoom_power (window_resized w h c) = zoom_power c"
  using assms perform_in_sync [of k c zf buf c1]
  by (simp add: window_resized_keeps) (simp add: window_resized_def)

lemma camera_new_in_sync: "pose_in_sync camera_new"
  by (simp add: pose_in_sync_def camera_new_def mat_defs vec_defs)

theorem pose_recomputed_by_every_call_but_resize_witness:
  "perform (11 / 10) buffer_200_100 (Mouse_drag_event 10 5) camera_new
     = Some (mouse_drag_event 10 5 camera_new)
   \<and> moves_camera (Mouse_drag_event 10 5)
   \<and> pose_in_sync camera_new
   \<and> pose_in_sync (mouse_drag_event 10 5 camera_new)
   \<and> game_object_pose (window_resized 800 800 camera_new) = game_object_pose camera_new
   \<and> scale (window_resized 800 800 camera_new) = scale camera_new
   \<and> camera_pos_x (window_resized 800 800 camera_new) = camera_pos_x camera_new
   \<and> camera_pos_y (window_resized 800 800 camera_new) = camera_pos_y camera_new
   \<and> zoom_power (window_resized 800 800 camera_new) = zoom_power camera_new"
proof -
  have p: "perform (11 / 10) buffer_200_100 (Mouse_drag_event 10 5) camera_new
             = Some (mouse_drag_event 10 5 camera_new)"
    by simp
  have m: "moves_camera (Mouse_drag_event 10 5)" by simp
  show ?thesis
    using p m camera_new_in_sync
      pose_recomputed_by_every_call_but_resize [OF p, of 800 800]
    by blast
qed

text \<open>
  C6, as stated, fails for \<^verbatim>\<open>window_resized\<close>: on a camera whose position has been written
  but whose pose has not been recomputed, the pose still disagrees after the resize.
\<close>

theorem window_resized_leaves_stale_pose:
  "\<not> pose_in_sync (window_resized 800 800 camera_stale)"
  by (simp add: pose_in_sync_def window_resized_def camera_stale_def camera_new_def
      mat_defs vec_defs)

section \<open>Drag pan\<close>

lemma excess_bits_small: "n < 2 ^ 24 \<Longrightarrow> excess_bits n = 0"
  by (subst excess_bits.simps) simp

lemma f32_round_small: "\<bar>m\<bar> < 2 ^ 24 \<Longrightarrow> f32_round m e = F32 m e"
  by (simp add: f32_round_def excess_bits_small)

lemma f32_add_integers:
  "\<bar>m + n\<bar> < 2 ^ 24 \<Longrightarrow> f32_add (F32 m 0) (F32 n 0) = F32 (m + n) 0"
  by (simp add: f32_add_def f32_round_small)

lemma f32_drag_back:
  assumes "\<bar>m\<bar> \<le> 2 ^ 24 - 1 - \<bar>d\<bar>" "\<bar>d\<bar> < 2 ^ 24"
  shows "f32_add (f32_add (F32 m 0) (f32_of_int d)) (f32_of_int (- d)) = F32 m 0"
proof -
  have "\<bar>m + d\<bar> < 2 ^ 24" "\<bar>m + d + - d\<bar> < 2 ^ 24" using assms by simp_all
  then show ?thesis
    using assms(2) by (simp add: f32_of_int_def f32_round_small f32_add_integers)
qed

text \<open>
  C8, as the code has it. \<^verbatim>\<open>mouse_drag_event(dx, dy)\<close> adds the pixel deltas to
  \<open>camera_pos_x\<close> and \<open>camera_pos_y\<close> as they are, with no scale or zoom in the sum, and
  leaves \<open>scale\<close> and \<open>zoom_power\<close> alone. In exact arithmetic a drag by (10, 5) followed by
  a drag by (-10, -5) restores the position. In binary32 it restores it bit for bit when the
  position is a pair of integers of magnitude at most \<open>2 ^ 24 - 11\<close> and \<open>2 ^ 24 - 6\<close>, so
  that no sum is rounded.
\<close>

theorem mouse_drag_event_adds_raw_deltas:
  "camera_pos_x (mouse_drag_event dx dy c) = camera_pos_x c + of_int dx
   \<and> camera_pos_y (mouse_drag_event dx dy c) = camera_pos_y c + of_int dy
   \<and> scale (mouse_drag_event dx dy c) = scale c
   \<and> zoom_power (mouse_drag_event dx dy c) = zoom_power c
   \<and> camera_pos_x (mouse_drag_event (- 10) (- 5) (mouse_drag_event 10 5 c)) = camera_pos_x c
   \<and> camera_pos_y (mouse_drag_event (- 10) (- 5) (mouse_drag_event 10 5 c)) = camera_pos_y c
   \<and> (\<bar>mx\<bar> \<le> 2 ^ 24 - 11 \<and> \<bar>my\<bar> \<le> 2 ^ 24 - 6 \<longrightarrow>
        mouse_drag_event_f32 (- 10) (- 5) (mouse_drag_event_f32 10 5 (F32 mx 0, F32 my 0))
          = (F32 mx 0, F32 my 0))"
  using f32_drag_back [of mx 10] f32_drag_back [of my 5]
  by (simp add: mouse_drag_event_def mouse_drag_event_f32_def)

theorem mouse_drag_event_adds_raw_deltas_witness:
  "\<bar>3 :: int\<bar> \<le> 2 ^ 24 - 11 \<and> \<bar>- 4 :: int\<bar> \<le> 2 ^ 24 - 6
   \<and> mouse_drag_event_f32 (- 10) (- 5) (mouse_drag_event_f32 10 5 (F32 3 0, F32 (- 4) 0))
        = (F32 3 0, F32 (- 4) 0)
   \<and> camera_pos_x (mouse_drag_event 10 5 camera_new) = camera_pos_x camera_new + of_int 10"
  using mouse_drag_event_adds_raw_deltas [of 10 5 camera_new 3 "- 4"] by simp

text \<open>
  C8, as stated, fails in binary32: from \<open>camera_pos_x = 2 ^ - 24\<close> the sum with \<open>10\<close>
  rounds to \<open>10\<close>, and the drag back ends on \<open>0\<close>.
\<close>

theorem mouse_drag_event_f32_drifts:
  "f32_val (fst (mouse_drag_event_f32 (- 10) (- 5)
                  (mouse_drag_event_f32 10 5 (F32 1 (- 24), F32 0 0)))) = 0
   \<and> f32_val (F32 1 (- 24)) = 1 / 2 ^ 24
   \<and> f32_val (fst (mouse_drag_event_f32 (- 10) (- 5)
                      (mouse_drag_event_f32 10 5 (F32 1 (- 24), F32 0 0))))
       \<noteq> f32_val (F32 1 (- 24))"
  by (simp add: mouse_drag_event_f32_def f32_add_def f32_of_int_def f32_round_def f32_val_def
      excess_bits.simps Let_def)



section \<open>Auto-fit\<close>

lemma zoom_in_loop_exit:
  assumes "\<And>j. j < n \<Longrightarrow> cw > zf powr (zp + real j) * bx \<and> ch > zf powr (zp + real j) * by"
    and "\<not> (cw > zf powr (zp + real n) * bx \<and> ch > zf powr (zp + real n) * by)"
  shows "zoom_in_loop zf cw ch bx by zp (zf powr zp) = Some (zp + real n, zf powr (zp + real n))"
  using assms
proof (induction n arbitrary: zp)
  case 0
  then show ?case by (subst zoom_in_loop.simps) auto
next
  case (Suc n)
  have now: "cw > zf powr zp * bx \<and> ch > zf powr zp * by"
    using Suc.prems(1) [of 0] by simp
  have later: "zoom_in_loop zf cw ch bx by (zp + 1) (zf powr (zp + 1))
                 = Some (zp + 1 + real n, zf powr (zp + 1 + real n))"
  proof (rule Suc.IH)
    fix j assume "j < n"
    then show "cw > zf powr (zp + 1 + real j) * bx \<and> ch > zf powr (zp + 1 + real j) * by"
      using Suc.prems(1) [of "Suc j"] by (simp add: add.assoc)
  next
    show "\<not> (cw > zf powr (zp + 1 + real n) * bx \<and> ch > zf powr (zp + 1 + real n) * by)"
      using Suc.prems(2) by (simp add: add.assoc)
  qed
  have "zp + 1 + real n = zp + real (Suc n)" by simp
  with now later show ?case
    by (subst zoom_in_loop.simps) simp
qed

lemma zoom_out_loop_exit:
  assumes "\<And>j. j < n \<Longrightarrow> cw < zf powr (zp - real j) * bx \<or> ch < zf powr (zp - real j) * by"
    and "\<not> (cw < zf powr (zp - real n) * bx \<or> ch < zf powr (zp - real n) * by)"
  shows "zoom_out_loop zf cw ch bx by zp (zf powr zp) = Some (zp - real n, zf powr (zp - real n))"
  using assms
proof (induction n arbitrary: zp)
  case 0
  then show ?case by (subst zoom_out_loop.simps) auto
next
  case (Suc n)
  have now: "cw < zf powr zp * bx \<or> ch < zf powr zp * by"
    using Suc.prems(1) [of 0] by simp
  have later: "zoom_out_loop zf cw ch bx by (zp - 1) (zf powr (zp - 1))
                 = Some (zp - 1 - real n, zf powr (zp - 1 - real n))"
  proof (rule Suc.IH)
    fix j assume "j < n"
    then show "cw < zf powr (zp - 1 - real j) * bx \<or> ch < zf powr (zp - 1 - real j) * by"
      using Suc.prems(1) [of "Suc j"] by (simp add: algebra_simps)
  next
    show "\<not> (cw < zf powr (zp - 1 - real n) * bx \<or> ch < zf powr (zp - 1 - real n) * by)"
      using Suc.prems(2) by (simp add: algebra_simps)
  qed
  have "zp - 1 - real n = zp - real (Suc n)" by simp
  with now later show ?case
    by (subst zoom_out_loop.simps) simp
qed

lemma powr_grows:
  assumes "1 < zf" "0 < b"
  shows "\<exists>n. c \<le> zf powr (zp + real n) * b"
proof -
  have pos: "0 < zf powr zp * b" using assms by simp
  obtain n where n: "c / (zf powr zp * b) < zf ^ n"
    using real_arch_pow [OF assms(1)] by blast
  have "c < zf ^ n * (zf powr zp * b)"
    using n pos by (simp add: pos_divide_less_eq)
  also have "\<dots> = zf powr (zp + real n) * b"
    using assms(1) by (simp add: powr_add powr_realpow)
  finally show ?thesis by (intro exI [of _ n]) simp
qed


lemma powr_shrinks:
  assumes "1 < zf" "0 < c" "0 \<le> b"
  shows "\<exists>N. \<forall>n\<ge>N. zf powr (zp - real n) * b \<le> c"
proof -
  obtain N where N: "zf powr zp * b / c < zf ^ N"
    using real_arch_pow [OF assms(1)] by blast
  have zN: "0 < zf ^ N" using assms(1) by simp
  have "zf powr zp * b < zf ^ N * c"
    using N assms(2) by (simp add: pos_divide_less_eq)
  then have "zf powr zp * b / zf ^ N < c"
    using zN by (simp add: pos_divide_less_eq mult.commute)
  moreover have "zf powr (zp - real N) = zf powr zp / zf ^ N"
    using assms(1) by (simp add: powr_diff powr_realpow)
  ultimately have atN: "zf powr (zp - real N) * b \<le> c" by simp
  have "zf powr (zp - real n) * b \<le> c" if "N \<le> n" for n
  proof -
    have "zf powr (zp - real n) \<le> zf powr (zp - real N)"
      using that assms(1) by simp
    then have "zf powr (zp - real n) * b \<le> zf powr (zp - real N) * b"
      using assms(3) by (rule mult_right_mono)
    with atN show ?thesis by simp
  qed
  then show ?thesis by blast
qed

lemma zoom_in_loop_terminates:
  assumes "1 < zf" "0 < bx"
  shows "\<exists>n. zoom_in_loop zf cw ch bx by zp (zf powr zp) = Some (zp + real n, zf powr (zp + real n))
     \<and> (\<forall>j<n. zf powr (zp + real j) * bx < cw \<and> zf powr (zp + real j) * by < ch)
     \<and> \<not> (zf powr (zp + real n) * bx < cw \<and> zf powr (zp + real n) * by < ch)"
proof -
  define stop where
    "stop n \<longleftrightarrow> \<not> (zf powr (zp + real n) * bx < cw \<and> zf powr (zp + real n) * by < ch)" for n
  obtain n0 where "cw \<le> zf powr (zp + real n0) * bx"
    using powr_grows [OF assms, of cw zp] by blast
  then have "stop n0" by (simp add: stop_def not_less)
  then have last: "stop (LEAST n. stop n)" by (rule LeastI)
  have before: "\<not> stop j" if "j < (LEAST n. stop n)" for j
    using that by (rule not_less_Least)
  have "zoom_in_loop zf cw ch bx by zp (zf powr zp) =
          Some (zp + real (LEAST n. stop n), zf powr (zp + real (LEAST n. stop n)))"
  proof (rule zoom_in_loop_exit)
    fix j assume "j < (LEAST n. stop n)"
    then have "\<not> stop j" by (rule before)
    then show "cw > zf powr (zp + real j) * bx \<and> ch > zf powr (zp + real j) * by"
      by (simp add: stop_def)
  next
    show "\<not> (cw > zf powr (zp + real (LEAST n. stop n)) * bx
            \<and> ch > zf powr (zp + real (LEAST n. stop n)) * by)"
      using last unfolding stop_def .
  qed
  moreover have "\<forall>j<LEAST n. stop n.
      zf powr (zp + real j) * bx < cw \<and> zf powr (zp + real j) * by < ch"
    using before unfolding stop_def by blast
  moreover have "\<not> (zf powr (zp + real (LEAST n. stop n)) * bx < cw
                   \<and> zf powr (zp + real (LEAST n. stop n)) * by < ch)"
    using last unfolding stop_def .
  ultimately show ?thesis by blast
qed

lemma zoom_out_loop_terminates:
  assumes "1 < zf" "0 < cw" "0 < ch" "0 \<le> bx" "0 \<le> by"
  shows "\<exists>n. zoom_out_loop zf cw ch bx by zp (zf powr zp)
               = Some (zp - real n, zf powr (zp - real n))
     \<and> (\<forall>j<n. cw < zf powr (zp - real j) * bx \<or> ch < zf powr (zp - real j) * by)
     \<and> \<not> (cw < zf powr (zp - real n) * bx \<or> ch < zf powr (zp - real n) * by)"
proof -
  define stop where
    "stop n \<longleftrightarrow> \<not> (cw < zf powr (zp - real n) * bx \<or> ch < zf powr (zp - real n) * by)" for n
  obtain N1 where N1: "\<forall>n\<ge>N1. zf powr (zp - real n) * bx \<le> cw"
    using powr_shrinks [OF assms(1,2,4)] by blast
  obtain N2 where N2: "\<forall>n\<ge>N2. zf powr (zp - real n) * by \<le> ch"
    using powr_shrinks [OF assms(1,3,5)] by blast
  have "stop (max N1 N2)"
    using N1 N2 by (simp add: stop_def not_less)
  then have last: "stop (LEAST n. stop n)" by (rule LeastI)
  have before: "\<not> stop j" if "j < (LEAST n. stop n)" for j
    using that by (rule not_less_Least)
  have "zoom_out_loop zf cw ch bx by zp (zf powr zp) =
          Some (zp - real (LEAST n. stop n), zf powr (zp - real (LEAST n. stop n)))"
  proof (rule zoom_out_loop_exit)
    fix j assume "j < (LEAST n. stop n)"
    then have "\<not> stop j" by (rule before)
    then show "cw < zf powr (zp - real j) * bx \<or> ch < zf powr (zp - real j) * by"
      by (simp add: stop_def)
  next
    show "\<not> (cw < zf powr (zp - real (LEAST n. stop n)) * bx
            \<or> ch < zf powr (zp - real (LEAST n. stop n)) * by)"
      using last unfolding stop_def .
  qed
  moreover have "\<forall>j<LEAST n. stop n.
      cw < zf powr (zp - real j) * bx \<or> ch < zf powr (zp - real j) * by"
    using before unfolding stop_def by blast
  moreover have "\<not> (cw < zf powr (zp - real (LEAST n. stop n)) * bx
                   \<or> ch < zf powr (zp - real (LEAST n. stop n)) * by)"
    using last unfolding stop_def .
  ultimately show ?thesis by blast
qed

lemma set_initial_zoom_unfold:
  "set_initial_zoom zf buf c =
     (if of_int (canvas_width c) > buf_dim_x buf \<and> of_int (canvas_height c) > buf_dim_y buf then
        (case zoom_in_loop zf (of_int (canvas_width c)) (of_int (canvas_height c))
                (buf_dim_x buf) (buf_dim_y buf) 1 (zf powr 1) of
           None \<Rightarrow> None
         | Some (zp, new_zoom) \<Rightarrow> Some (rebuild_scale zf (c\<lparr>zoom_power := zp - 1\<rparr>)))
      else if of_int (canvas_width c) < buf_dim_x buf \<or> of_int (canvas_height c) < buf_dim_y buf
      then
        (case zoom_out_loop zf (of_int (canvas_width c)) (of_int (canvas_height c))
                (buf_dim_x buf) (buf_dim_y buf) (- 1) (zf powr (- 1)) of
           None \<Rightarrow> None
         | Some (zp, new_zoom) \<Rightarrow> Some (rebuild_scale zf (c\<lparr>zoom_power := zp\<rparr>)))
      else Some (rebuild_scale zf (c\<lparr>zoom_power := 0\<rparr>)))"
  by (simp add: set_initial_zoom_def buf_dim_x_def buf_dim_y_def Let_def)

lemma buf_dim_nonneg [simp]: "0 \<le> buf_dim_x buf" "0 \<le> buf_dim_y buf"
  by (simp_all add: buf_dim_x_def buf_dim_y_def)





lemma zoom_in_rounds:
  assumes "1 < zf" "0 < buf_dim_x buf"
    and "buf_dim_x buf < of_int (canvas_width c) \<and> buf_dim_y buf < of_int (canvas_height c)"
  shows "\<exists>n. zoom_in_loop zf (of_int (canvas_width c)) (of_int (canvas_height c))
          (buf_dim_x buf) (buf_dim_y buf) 1 (zf powr 1) = Some (1 + real n, zf powr (1 + real n))
     \<and> fits_strictly zf buf c (int n) \<and> \<not> fits_strictly zf buf c (int n + 1)"
proof -
  obtain n where
    loop: "zoom_in_loop zf (of_int (canvas_width c)) (of_int (canvas_height c))
       (buf_dim_x buf) (buf_dim_y buf) 1 (zf powr 1) = Some (1 + real n, zf powr (1 + real n))"
    and before: "\<forall>j<n. zf powr (1 + real j) * buf_dim_x buf < of_int (canvas_width c)
                     \<and> zf powr (1 + real j) * buf_dim_y buf < of_int (canvas_height c)"
    and last: "\<not> (zf powr (1 + real n) * buf_dim_x buf < of_int (canvas_width c)
                     \<and> zf powr (1 + real n) * buf_dim_y buf < of_int (canvas_height c))"
    using zoom_in_loop_terminates [OF assms(1,2), of "of_int (canvas_width c)"
        "of_int (canvas_height c)" "buf_dim_y buf" 1]
    by blast
  have here: "fits_strictly zf buf c (int n)"
  proof (cases n)
    case 0
    with assms show ?thesis by (simp add: fits_strictly_def)
  next
    case (Suc m)
    have "1 + real m = real (Suc m)" by simp
    with before Suc show ?thesis by (simp add: fits_strictly_def)
  qed
  have "1 + real n = real_of_int (int n + 1)" by simp
  with last have "\<not> fits_strictly zf buf c (int n + 1)"
    unfolding fits_strictly_def by metis
  with loop here show ?thesis by blast
qed

lemma zoom_out_rounds:
  assumes "1 < zf" "0 < canvas_width c" "0 < canvas_height c"
    and "of_int (canvas_width c) < buf_dim_x buf \<or> of_int (canvas_height c) < buf_dim_y buf"
  shows "\<exists>n. zoom_out_loop zf (of_int (canvas_width c)) (of_int (canvas_height c))
          (buf_dim_x buf) (buf_dim_y buf) (- 1) (zf powr (- 1))
        = Some (- 1 - real n, zf powr (- 1 - real n))
     \<and> fits zf buf c (- 1 - int n) \<and> \<not> fits zf buf c (- int n)"
proof -
  have cw: "0 < real_of_int (canvas_width c)" and ch: "0 < real_of_int (canvas_height c)"
    using assms(2,3) by simp_all
  obtain n where
    loop: "zoom_out_loop zf (of_int (canvas_width c)) (of_int (canvas_height c))
       (buf_dim_x buf) (buf_dim_y buf) (- 1) (zf powr (- 1))
       = Some (- 1 - real n, zf powr (- 1 - real n))"
    and before: "\<forall>j<n.
         of_int (canvas_width c) < zf powr (- 1 - real j) * buf_dim_x buf
       \<or> of_int (canvas_height c) < zf powr (- 1 - real j) * buf_dim_y buf"
    and last: "\<not> (of_int (canvas_width c) < zf powr (- 1 - real n) * buf_dim_x buf
                \<or> of_int (canvas_height c) < zf powr (- 1 - real n) * buf_dim_y buf)"
    using zoom_out_loop_terminates [OF assms(1) cw ch buf_dim_nonneg, of buf buf "- 1"]
    by blast
  have "- 1 - real n = real_of_int (- 1 - int n)" by simp
  with last have here: "fits zf buf c (- 1 - int n)"
    unfolding fits_def not_less [symmetric] by metis
  have "\<not> fits zf buf c (- int n)"
  proof (cases n)
    case 0
    with assms(1,4) show ?thesis by (auto simp: fits_def)
  next
    case (Suc m)
    have "- 1 - real m = real_of_int (- int (Suc m))" by simp
    with before Suc have
      "of_int (canvas_width c) < zf powr real_of_int (- int n) * buf_dim_x buf
       \<or> of_int (canvas_height c) < zf powr real_of_int (- int n) * buf_dim_y buf"
      by (metis lessI)
    then show ?thesis unfolding fits_def by auto
  qed
  with loop here show ?thesis by blast
qed

lemma set_initial_zoom_zoom_in:
  assumes "buf_dim_x buf < of_int (canvas_width c) \<and> buf_dim_y buf < of_int (canvas_height c)"
    and "zoom_in_loop zf (of_int (canvas_width c)) (of_int (canvas_height c))
          (buf_dim_x buf) (buf_dim_y buf) 1 (zf powr 1) = Some (1 + real n, zf powr (1 + real n))"
  shows "set_initial_zoom zf buf c = Some (rebuild_scale zf (c\<lparr>zoom_power := real n\<rparr>))"
  using assms by (simp add: set_initial_zoom_unfold)

lemma set_initial_zoom_zoom_out:
  assumes "\<not> (buf_dim_x buf < of_int (canvas_width c) \<and> buf_dim_y buf < of_int (canvas_height c))"
    and "of_int (canvas_width c) < buf_dim_x buf \<or> of_int (canvas_height c) < buf_dim_y buf"
    and "zoom_out_loop zf (of_int (canvas_width c)) (of_int (canvas_height c))
          (buf_dim_x buf) (buf_dim_y buf) (- 1) (zf powr (- 1))
        = Some (- 1 - real n, zf powr (- 1 - real n))"
  shows "set_initial_zoom zf buf c = Some (rebuild_scale zf (c\<lparr>zoom_power := - 1 - real n\<rparr>))"
  using assms by (auto simp: set_initial_zoom_unfold)

lemma set_initial_zoom_as_is:
  assumes "1 < zf" "0 < buf_dim_x buf" "0 < buf_dim_y buf"
    and "\<not> (buf_dim_x buf < of_int (canvas_width c) \<and> buf_dim_y buf < of_int (canvas_height c))"
    and "\<not> (of_int (canvas_width c) < buf_dim_x buf \<or> of_int (canvas_height c) < buf_dim_y buf)"
  shows "set_initial_zoom zf buf c = Some (rebuild_scale zf (c\<lparr>zoom_power := 0\<rparr>))"
    and "fits zf buf c 0" and "\<not> fits zf buf c 1"
proof -
  show "set_initial_zoom zf buf c = Some (rebuild_scale zf (c\<lparr>zoom_power := 0\<rparr>))"
    using assms(4,5) by (auto simp: set_initial_zoom_unfold)
  show "fits zf buf c 0"
    using assms(1,5) by (simp add: fits_def not_less)
  have "buf_dim_x buf < zf * buf_dim_x buf" "buf_dim_y buf < zf * buf_dim_y buf"
    using assms(1,2,3) by simp_all
  with assms(1,4,5) show "\<not> fits zf buf c 1"
    by (auto simp: fits_def not_less not_le)
qed

lemma zoom_power_rebuild_scale [simp]: "zoom_power (rebuild_scale zf c) = zoom_power c"
  by (simp add: rebuild_scale_def Let_def)






lemma sample_canvas [simp]:
  "canvas_width (window_resized w h c) = w" "canvas_height (window_resized w h c) = h"
  by (simp_all add: window_resized_def)

lemma sample_buf_dims [simp]:
  "buf_dim_x buffer_200_100 = 200" "buf_dim_y buffer_200_100 = 100"
  "buf_dim_x buffer_10_10 = 10" "buf_dim_y buffer_10_10 = 10"
  by (simp_all add: buf_dim_x_def buf_dim_y_def buffer_200_100_def buffer_10_10_def
      mat_defs vec_defs)

lemma zoom_in_loop_sample:
  "zoom_in_loop (11 / 10) 800 800 200 100 1 ((11 / 10) powr 1) = Some (15, (11 / 10) powr 15)"
  by (simp add: zoom_in_loop.simps power_divide)






section \<open>Termination of auto-fit\<close>

lemma set_initial_zoom_returns:
  assumes "1 < zf" "0 < buf_dim_x buf" "0 < buf_dim_y buf"
    and "0 < canvas_width c" "0 < canvas_height c"
  shows "set_initial_zoom zf buf c \<noteq> None"
proof (cases "buf_dim_x buf < of_int (canvas_width c) \<and> buf_dim_y buf < of_int (canvas_height c)")
  case True
  from zoom_in_rounds [OF assms(1,2) True] obtain n where
    "zoom_in_loop zf (of_int (canvas_width c)) (of_int (canvas_height c))
          (buf_dim_x buf) (buf_dim_y buf) 1 (zf powr 1) = Some (1 + real n, zf powr (1 + real n))"
    by blast
  with True show ?thesis by (simp add: set_initial_zoom_zoom_in)
next
  case False
  show ?thesis
  proof (cases "of_int (canvas_width c) < buf_dim_x buf \<or> of_int (canvas_height c) < buf_dim_y buf")
    case True
    from zoom_out_rounds [OF assms(1,4,5) True] obtain n where
      "zoom_out_loop zf (of_int (canvas_width c)) (of_int (canvas_height c))
            (buf_dim_x buf) (buf_dim_y buf) (- 1) (zf powr (- 1))
          = Some (- 1 - real n, zf powr (- 1 - real n))"
      by blast
    with False True show ?thesis by (simp add: set_initial_zoom_zoom_out)
  next
    case tight: False
    show ?thesis
      by (simp add: set_initial_zoom_as_is(1) [OF assms(1,2,3) False tight])
  qed
qed

lemma rounds_below_log:
  assumes "1 < zf" "0 < b" "zf powr real n * b < a"
  shows "real n < log zf (a / b)"
proof -
  have "zf powr real n < a / b"
    using assms(2,3) by (simp add: pos_less_divide_eq)
  moreover have "0 < a / b"
    using calculation powr_gt_zero [of zf "real n"] assms(1) by (smt (verit) powr_ge_zero)
  ultimately show ?thesis
    using assms(1) by (simp add: less_log_iff)
qed

lemma rounds_below_log_down:
  assumes "1 < zf" "0 < a" "a < zf powr (- real n) * b"
  shows "real n < log zf (b / a)"
proof -
  have p: "0 < zf powr real n" using assms(1) by simp
  have "a < b / zf powr real n"
    using assms(3) by (simp add: powr_minus divide_inverse mult.commute)
  then have "zf powr real n * a < b"
    using p by (simp add: pos_less_divide_eq mult.commute)
  then show ?thesis
    by (rule rounds_below_log [OF assms(1,2)])
qed

text \<open>
  C7. For positive transformed buffer extents and a positive canvas size both loops of
  \<^verbatim>\<open>set_initial_zoom\<close> terminate, and so does the function. The zoom-in loop, entered at
  \<open>zoom_power = 1\<close>, leaves at \<open>1 + n\<close> after \<open>n\<close> rounds of \<open>zoom_power += 1\<close>; the zoom-out
  loop, entered at \<open>- 1\<close>, leaves at \<open>- 1 - n\<close> after \<open>n\<close> rounds of \<open>zoom_power -= 1\<close>. In
  the branch that enters the loop, \<open>n\<close> is below the logarithm to the base of the zoom
  factor of the ratio of canvas to buffer (zooming in), or of buffer to canvas (zooming
  out).
\<close>

theorem set_initial_zoom_loops_terminate:
  assumes "1 < zf" "0 < buf_dim_x buf" "0 < buf_dim_y buf"
    and "0 < canvas_width c" "0 < canvas_height c"
  shows "(let cw = real_of_int (canvas_width c); ch = real_of_int (canvas_height c);
              bx = buf_dim_x buf; by = buf_dim_y buf
          in (\<exists>n. zoom_in_loop zf cw ch bx by (0 + 1) (zf powr (0 + 1))
                     = Some (1 + real n, zf powr (1 + real n))
                 \<and> (bx < cw \<and> by < ch \<longrightarrow>
                      real n < log zf (cw / bx) \<and> real n < log zf (ch / by)))
           \<and> (\<exists>n. zoom_out_loop zf cw ch bx by (0 - 1) (zf powr (0 - 1))
                     = Some (- 1 - real n, zf powr (- 1 - real n))
                 \<and> (cw < bx \<or> ch < by \<longrightarrow> real n < log zf (max (bx / cw) (by / ch))))
           \<and> set_initial_zoom zf buf c \<noteq> None)"
proof -
  let ?cw = "real_of_int (canvas_width c)" and ?ch = "real_of_int (canvas_height c)"
  let ?bx = "buf_dim_x buf" and ?by = "buf_dim_y buf"
  have cw: "0 < ?cw" and ch: "0 < ?ch" using assms(4,5) by simp_all
  have up: "\<exists>n. zoom_in_loop zf ?cw ?ch ?bx ?by 1 (zf powr 1)
                     = Some (1 + real n, zf powr (1 + real n))
                 \<and> (?bx < ?cw \<and> ?by < ?ch \<longrightarrow>
                      real n < log zf (?cw / ?bx) \<and> real n < log zf (?ch / ?by))"
  proof (cases "?bx < ?cw \<and> ?by < ?ch")
    case True
    from zoom_in_rounds [OF assms(1,2) True] obtain n where
      loop: "zoom_in_loop zf ?cw ?ch ?bx ?by 1 (zf powr 1)
               = Some (1 + real n, zf powr (1 + real n))"
      and here: "fits_strictly zf buf c (int n)"
      by blast
    from here have "zf powr real n * ?bx < ?cw" "zf powr real n * ?by < ?ch"
      by (simp_all add: fits_strictly_def)
    then have "real n < log zf (?cw / ?bx)" "real n < log zf (?ch / ?by)"
      using assms(1,2,3) by (simp_all add: rounds_below_log)
    with loop show ?thesis by blast
  next
    case False
    from zoom_in_loop_terminates [OF assms(1,2), of ?cw ?ch ?by 1] obtain n where
      "zoom_in_loop zf ?cw ?ch ?bx ?by 1 (zf powr 1) = Some (1 + real n, zf powr (1 + real n))"
      by blast
    with False show ?thesis by blast
  qed
  have down: "\<exists>n. zoom_out_loop zf ?cw ?ch ?bx ?by (- 1) (zf powr (- 1))
                     = Some (- 1 - real n, zf powr (- 1 - real n))
                 \<and> (?cw < ?bx \<or> ?ch < ?by \<longrightarrow>
                      real n < log zf (max (?bx / ?cw) (?by / ?ch)))"
  proof (cases "?cw < ?bx \<or> ?ch < ?by")
    case True
    from zoom_out_rounds [OF assms(1,4,5) True] obtain n where
      loop: "zoom_out_loop zf ?cw ?ch ?bx ?by (- 1) (zf powr (- 1))
               = Some (- 1 - real n, zf powr (- 1 - real n))"
      and above: "\<not> fits zf buf c (- int n)"
      by blast
    from above have "?cw < zf powr (- real n) * ?bx \<or> ?ch < zf powr (- real n) * ?by"
      by (auto simp: fits_def not_le)
    then have "real n < log zf (?bx / ?cw) \<or> real n < log zf (?by / ?ch)"
      using rounds_below_log_down [OF assms(1) cw] rounds_below_log_down [OF assms(1) ch]
      by blast
    moreover have "log zf (?bx / ?cw) \<le> log zf (max (?bx / ?cw) (?by / ?ch))"
      "log zf (?by / ?ch) \<le> log zf (max (?bx / ?cw) (?by / ?ch))"
      using assms(1,2,3) cw ch by (simp_all add: log_mono)
    ultimately have "real n < log zf (max (?bx / ?cw) (?by / ?ch))" by linarith
    with loop show ?thesis by blast
  next
    case False
    from zoom_out_loop_terminates [OF assms(1) cw ch buf_dim_nonneg, of buf buf "- 1"]
    obtain n where
      "zoom_out_loop zf ?cw ?ch ?bx ?by (- 1) (zf powr (- 1))
         = Some (- 1 - real n, zf powr (- 1 - real n))"
      by blast
    with False show ?thesis by blast
  qed
  from up down set_initial_zoom_returns [OF assms] show ?thesis
    by (simp add: Let_def)
qed


lemma zoom_out_loop_sample:
  "zoom_out_loop (11 / 10) 50 50 200 100 (- 1) ((11 / 10) powr (- 1))
     = Some (- 15, (11 / 10) powr (- 15))"
  by (simp add: zoom_out_loop.simps power_divide powr_minus)

theorem set_initial_zoom_loops_terminate_witness:
  "(1 :: real) < 11 / 10
   \<and> 0 < buf_dim_x buffer_200_100 \<and> 0 < buf_dim_y buffer_200_100
   \<and> 0 < canvas_width (window_resized 800 800 camera_new)
   \<and> 0 < canvas_height (window_resized 800 800 camera_new)
   \<and> zoom_in_loop (11 / 10) 800 800 200 100 1 ((11 / 10) powr 1)
        = Some (1 + real 14, (11 / 10) powr (1 + real 14))
   \<and> real 14 < log (11 / 10) (800 / 200) \<and> real 14 < log (11 / 10) (800 / 100)
   \<and> set_initial_zoom (11 / 10) buffer_200_100 (window_resized 800 800 camera_new) \<noteq> None
   \<and> 0 < canvas_width (window_resized 50 50 camera_new)
   \<and> 0 < canvas_height (window_resized 50 50 camera_new)
   \<and> zoom_out_loop (11 / 10) 50 50 200 100 (- 1) ((11 / 10) powr (- 1))
        = Some (- 1 - real 14, (11 / 10) powr (- 1 - real 14))
   \<and> real 14 < log (11 / 10) (max (200 / 50) (100 / 50))
   \<and> set_initial_zoom (11 / 10) buffer_200_100 (window_resized 50 50 camera_new) \<noteq> None"
proof -
  let ?c = "window_resized 800 800 camera_new"
  let ?d = "window_resized 50 50 camera_new"
  have h: "(1 :: real) < 11 / 10" "0 < buf_dim_x buffer_200_100" "0 < buf_dim_y buffer_200_100"
    by simp_all
  have hc: "0 < canvas_width ?c" "0 < canvas_height ?c"
    and hd: "0 < canvas_width ?d" "0 < canvas_height ?d"
    by simp_all
  from set_initial_zoom_loops_terminate [OF h hc] obtain n where
    loop: "zoom_in_loop (11 / 10) 800 800 200 100 1 ((11 / 10) powr 1)
             = Some (1 + real n, (11 / 10) powr (1 + real n))"
    and bound: "real n < log (11 / 10) (800 / 200) \<and> real n < log (11 / 10) (800 / 100)"
    and ret: "set_initial_zoom (11 / 10) buffer_200_100 ?c \<noteq> None"
    by (auto simp: Let_def)
  from loop zoom_in_loop_sample have "1 + real n = 15" by simp
  then have n: "n = 14" by linarith
  from set_initial_zoom_loops_terminate [OF h hd] obtain m where
    loop': "zoom_out_loop (11 / 10) 50 50 200 100 (- 1) ((11 / 10) powr (- 1))
             = Some (- 1 - real m, (11 / 10) powr (- 1 - real m))"
    and bound': "real m < log (11 / 10) (max (200 / 50) (100 / 50))"
    and ret': "set_initial_zoom (11 / 10) buffer_200_100 ?d \<noteq> None"
    by (auto simp: Let_def)
  from loop' zoom_out_loop_sample have "- 1 - real m = - 15" by simp
  then have m: "m = 14" by linarith
  from h hc hd loop bound ret n loop' bound' ret' m show ?thesis by simp
qed



section \<open>Programmatic navigation\<close>

lemma planar_inverse_rows:
  assumes "planar_pose p"
  shows "vz (row0 (mat4_inv p)) = 0" "vw (row0 (mat4_inv p)) = 0"
    "vz (row1 (mat4_inv p)) = 0" "vw (row1 (mat4_inv p)) = 0"
proof -
  obtain r0 r1 r2 r3 where p: "p = Mat4 r0 r1 r2 r3" by (cases p)
  obtain a0 a1 a2 a3 where r0: "r0 = Vec4 a0 a1 a2 a3" by (cases r0)
  obtain b0 b1 b2 b3 where r1: "r1 = Vec4 b0 b1 b2 b3" by (cases r1)
  obtain c0 c1 c2 c3 where r2: "r2 = Vec4 c0 c1 c2 c3" by (cases r2)
  obtain d0 d1 d2 d3 where r3: "r3 = Vec4 d0 d1 d2 d3" by (cases r3)
  have zeros: "a2 = 0" "a3 = 0" "b2 = 0" "b3 = 0"
    using assms by (simp_all add: planar_pose_def p r0 r1 elem_defs)
  show "vz (row0 (mat4_inv p)) = 0" "vw (row0 (mat4_inv p)) = 0"
    "vz (row1 (mat4_inv p)) = 0" "vw (row1 (mat4_inv p)) = 0"
    by (simp_all add: mat4_inv_def p r0 r1 r2 r3 zeros mat_defs vec_defs)
qed

lemma planar_inverse:
  assumes "planar_pose p"
  shows "vx (mat_vec (mat4_inv p) (Vec4 (vx (mat_vec p v)) (vy (mat_vec p v)) s t)) = vx v"
    and "vy (mat_vec (mat4_inv p) (Vec4 (vx (mat_vec p v)) (vy (mat_vec p v)) s t)) = vy v"
proof -
  note q = planar_inverse_rows [OF assms]
  have round_trip: "mat_vec (mat4_inv p) (mat_vec p v) = v"
    using assms by (simp add: planar_pose_def mat_vec_mul [symmetric] inv_mul)
  have "vx (mat_vec (mat4_inv p) (Vec4 (vx (mat_vec p v)) (vy (mat_vec p v)) s t))
          = vx (mat_vec (mat4_inv p) (mat_vec p v))"
    by (simp add: mat_vec_def [of "mat4_inv p"] dot_def q)
  with round_trip show
    "vx (mat_vec (mat4_inv p) (Vec4 (vx (mat_vec p v)) (vy (mat_vec p v)) s t)) = vx v"
    by simp
  have "vy (mat_vec (mat4_inv p) (Vec4 (vx (mat_vec p v)) (vy (mat_vec p v)) s t))
          = vy (mat_vec (mat4_inv p) (mat_vec p v))"
    by (simp add: mat_vec_def [of "mat4_inv p"] dot_def q)
  with round_trip show
    "vy (mat_vec (mat4_inv p) (Vec4 (vx (mat_vec p v)) (vy (mat_vec p v)) s t)) = vy v"
    by simp
qed

lemma mat_vec_scale:
  "mat_vec (mat4_scale (Vec4 a b c d)) v = Vec4 (a * vx v) (b * vy v) (c * vz v) (d * vw v)"
  by (simp add: mat_defs vec_defs)

lemma move_to_position:
  assumes "1 < zf"
  shows "scale (move_to zf buf x y c) = mat4_scale (Vec4 (zf powr (- zoom_power c)) (zf powr (- zoom_power c)) 1 1)"
    and "camera_pos_x (move_to zf buf x y c) * zf powr (- zoom_power c)
           = vx (mat_vec (buffer_pose buf)
                   (Vec4 (buffer_width_f buf / 2 - x) (buffer_height_f buf / 2 - y) 0 (1 / 2)))"
    and "camera_pos_y (move_to zf buf x y c) * zf powr (- zoom_power c)
           = vy (mat_vec (buffer_pose buf)
                   (Vec4 (buffer_width_f buf / 2 - x) (buffer_height_f buf / 2 - y) 0 (1 / 2)))"
proof -
  have z: "zf powr (- zoom_power c) \<noteq> 0" using assms by simp
  have r: "scale (rebuild_scale zf c)
             = mat4_scale (Vec4 (zf powr (- zoom_power c)) (zf powr (- zoom_power c)) 1 1)"
    by (simp add: rebuild_scale_def compute_zoom_def Let_def powr_minus_divide)
  show "scale (move_to zf buf x y c)
          = mat4_scale (Vec4 (zf powr (- zoom_power c)) (zf powr (- zoom_power c)) 1 1)"
    using r by (simp add: move_to_def Let_def)
  show "camera_pos_x (move_to zf buf x y c) * zf powr (- zoom_power c)
           = vx (mat_vec (buffer_pose buf)
                   (Vec4 (buffer_width_f buf / 2 - x) (buffer_height_f buf / 2 - y) 0 (1 / 2)))"
    using z
    by (simp add: move_to_def Let_def r inv_scale mat_vec_mul mat_vec_scale vec_sub_def
        vec_scalar_def)
  show "camera_pos_y (move_to zf buf x y c) * zf powr (- zoom_power c)
           = vy (mat_vec (buffer_pose buf)
                   (Vec4 (buffer_width_f buf / 2 - x) (buffer_height_f buf / 2 - y) 0 (1 / 2)))"
    using z
    by (simp add: move_to_def Let_def r inv_scale mat_vec_mul mat_vec_scale vec_sub_def
        vec_scalar_def)
qed


text \<open>
  C4, as the code has it. For every buffer extent, every coordinate \<open>(x, y)\<close> and every buffer
  pose that is invertible and acts on the x, y plane without reading z or the translation
  column, \<^verbatim>\<open>move_to(x, y)\<close> followed by \<^verbatim>\<open>get_position()\<close> returns \<open>x\<close> and \<open>y\<close> in the first two
  components, exactly in exact arithmetic.
\<close>

theorem move_to_then_get_position:
  assumes "1 < zf" "planar_pose (buffer_pose buf)"
  shows "vx (get_position buf (move_to zf buf x y c)) = x
       \<and> vy (get_position buf (move_to zf buf x y c)) = y"
proof -
  let ?c2 = "move_to zf buf x y c"
  let ?z = "zf powr (- zoom_power c)"
  let ?cc = "Vec4 (buffer_width_f buf / 2 - x) (buffer_height_f buf / 2 - y) 0 (1 / 2)"
  let ?goal = "mat_vec (buffer_pose buf) ?cc"
  note m = move_to_position [OF assms(1), of buf x y c]
  have "mat_vec (scale ?c2) (Vec4 (camera_pos_x ?c2) (camera_pos_y ?c2) 0 1)
          = Vec4 (camera_pos_x ?c2 * ?z) (camera_pos_y ?c2 * ?z) 0 1"
    by (simp add: m(1) mat_vec_scale mult.commute)
  then have seen: "mat_vec (scale ?c2) (Vec4 (camera_pos_x ?c2) (camera_pos_y ?c2) 0 1)
          = Vec4 (vx ?goal) (vy ?goal) 0 1"
    by (simp only: m(2,3))
  have "get_position buf ?c2
          = vec_sub (Vec4 (buffer_width_f buf / 2) (buffer_height_f buf / 2) 0 (1 / 2))
              (mat_vec (mat4_inv (buffer_pose buf)) (Vec4 (vx ?goal) (vy ?goal) 0 1))"
    by (simp add: get_position_def Let_def mat_vec_mul seen vec_scalar_def)
  then show ?thesis
    by (simp add: vec_sub_def planar_inverse [OF assms(2)])
qed

lemma buffer_turned_planar: "planar_pose (buffer_pose buffer_turned)"
  by (simp add: planar_pose_def buffer_turned_def elem_defs)

theorem move_to_then_get_position_witness:
  "(1 :: real) < 11 / 10 \<and> planar_pose (buffer_pose buffer_turned)
   \<and> vx (get_position buffer_turned (move_to (11 / 10) buffer_turned 3 (1 / 2) camera_fitted)) = 3
   \<and> vy (get_position buffer_turned (move_to (11 / 10) buffer_turned 3 (1 / 2) camera_fitted))
       = 1 / 2"
proof -
  have zf: "(1 :: real) < 11 / 10" by simp
  show ?thesis
    using zf buffer_turned_planar
      move_to_then_get_position [OF zf buffer_turned_planar, of 3 "1 / 2" camera_fitted]
    by blast
qed

text \<open>
  C4, as stated for every buffer, fails for a buffer object that is shifted: \<^verbatim>\<open>move_to\<close>
  multiplies the pose with a vector whose fourth component is one half (\<^verbatim>\<open>buf_dim * 0.5f\<close>
  halves it too), \<^verbatim>\<open>get_position\<close> multiplies the inverse pose with one whose fourth
  component is one, and half of the shift remains. For the buffer of 2 by 2 shifted by one
  along x, \<^verbatim>\<open>move_to(1, 1)\<close> and then \<^verbatim>\<open>get_position()\<close> gives \<open>x = 3 / 2\<close>.
\<close>

theorem move_to_then_get_position_shifted_buffer:
  "mat4_det (buffer_pose buffer_shifted) = 1
   \<and> vx (get_position buffer_shifted (move_to (11 / 10) buffer_shifted 1 1 camera_new)) = 3 / 2"
  by (simp add: buffer_shifted_def camera_new_def move_to_def get_position_def rebuild_scale_def
      compute_zoom_def update_object_pose_def Let_def mat4_inv_def mat_defs vec_defs)


end
